theory Spec2Isabelle
  imports Complex_Main "HOL-Library.Sublist"
begin

section \<open>Data model (harness/types.ts)\<close>

text \<open>
  Strings are modelled as \<^typ>\<open>string\<close>: sequences of code units below 256. A JavaScript
  \<open>number\<close> is a real, or one of the three special values. Optional fields are
  \<^typ>\<open>'a option\<close>. Console output (\<open>console.log\<close>, \<open>console.warn\<close>) is not part
  of the model.
\<close>

datatype number = Num real | NaN | PosInfinity | NegInfinity

text \<open>A thrown value: an \<open>Error\<close> instance with its message, or anything else with its
  \<open>String(...)\<close> form.\<close>

datatype thrown = ErrorObject string | NonError string

text \<open>The values of a test case's \<open>input\<close> record, as \<open>JSON.parse\<close> delivers them.
  \<open>JNumber n\<close> is an integer-valued number of magnitude at most \<open>2^53\<close>, which
  \<open>String(...)\<close> prints digit by digit; every other value (a larger number, a fraction, an
  array, an object) is \<open>JOther s\<close>, known by its \<open>String(...)\<close> form \<open>s\<close>.\<close>

datatype jsValue = JString string | JNumber int | JBoolean bool | JNull | JOther string

record PromptConfig =
  name :: string
  version :: string
  description :: string
  template :: string
  model :: "string option"
  temperature :: "number option"
  max_tokens :: "number option"

record Assertions =
  should_contain :: "string list option"
  should_not_contain :: "string list option"

text \<open>\<open>input\<close> is the record as \<open>Object.entries\<close> enumerates it.\<close>

record TestCase =
  name :: string
  input :: "(string \<times> jsValue) list"
  assertions :: Assertions

record SampleData =
  prompt_name :: "string option"
  test_cases :: "TestCase list"

record AssertionResult =
  assertion :: string
  passed :: bool
  found_in_response :: "bool option"

record AssertionResults =
  should_contain :: "AssertionResult list"
  should_not_contain :: "AssertionResult list"

record TestResult =
  prompt_name :: string
  test_case_name :: string
  model_used :: string
  passed :: bool
  response :: string
  assertions_checked :: AssertionResults
  execution_time_ms :: int
  error :: "string option"

text \<open>\<open>RunnerConfig\<close>; the reporter is the sink that \<open>run\<close> hands its results to, and
  appears in the outcome of \<open>run\<close> below.\<close>

record RunnerConfig =
  promptDir :: string
  samplesDir :: string
  modelOverride :: "string option"
  apiKey :: string
  filter_name :: "string option"

section \<open>The host: model API, clock, regular expressions, file system\<close>

record ChatRequest =
  model :: string
  content :: string
  temperature :: number
  max_tokens :: number

datatype message = Message (message_content: "string option")

datatype choice = Choice (choice_message: "message option")

record ChatCompletion =
  choices :: "choice list"

text \<open>
  The world outside the program, with a state \<open>'w\<close> that every call may change:
  \<open>create\<close> is \<open>openai.chat.completions.create\<close>, \<open>now\<close> is \<open>Date.now()\<close>, and
  \<open>regexReplace p s r\<close> is \<open>s.replace(new RegExp(p, 'g'), r)\<close> for the patterns \<open>p\<close>
  that the fragment of regular expressions modelled below does not cover.
\<close>

record 'w Host =
  create :: "ChatRequest \<Rightarrow> 'w \<Rightarrow> (thrown + ChatCompletion) \<times> 'w"
  now :: "'w \<Rightarrow> int \<times> 'w"
  regexReplace :: "string \<Rightarrow> string \<Rightarrow> string \<Rightarrow> thrown + string"

datatype SampleFile = CaseArray "TestCase list" | SampleObject SampleData

text \<open>
  The file system as the loaders read it. \<open>loadYaml dir file\<close> is \<open>readFileSync\<close> followed
  by \<open>yaml.load\<close> on \<open>path.join(dir, file)\<close>: it throws, or yields a document in which
  a missing \<open>name\<close> or \<open>template\<close> reads as the empty string (both are falsy).
  \<open>parseJson\<close> is \<open>readFileSync\<close> followed by \<open>JSON.parse\<close>.
\<close>

record FileSystem =
  existsSync :: "string \<Rightarrow> bool"
  readdirSync :: "string \<Rightarrow> thrown + string list"
  loadYaml :: "string \<Rightarrow> string \<Rightarrow> thrown + PromptConfig"
  parseJson :: "string \<Rightarrow> string \<Rightarrow> thrown + SampleFile"

section \<open>JavaScript built-ins\<close>

text \<open>\<open>error instanceof Error ? error.message : String(error)\<close>\<close>

fun describe :: "thrown \<Rightarrow> string" where
  "describe (ErrorObject m) = m"
| "describe (NonError s) = s"

text \<open>\<open>a || b\<close> for an optional string and for an optional number: the empty string, zero
  and \<open>NaN\<close> are falsy.\<close>

definition orString :: "string option \<Rightarrow> string \<Rightarrow> string" where
  "orString a b = (case a of None \<Rightarrow> b | Some s \<Rightarrow> if s = [] then b else s)"

fun truthy :: "number \<Rightarrow> bool" where
  "truthy (Num r) = (r \<noteq> 0)"
| "truthy NaN = False"
| "truthy PosInfinity = True"
| "truthy NegInfinity = True"

definition orNumber :: "number option \<Rightarrow> number \<Rightarrow> number" where
  "orNumber a b = (case a of None \<Rightarrow> b | Some n \<Rightarrow> if truthy n then n else b)"

text \<open>\<open>String.prototype.toLowerCase\<close> on code units below 256.\<close>

definition toLowerChar :: "char \<Rightarrow> char" where
  "toLowerChar c =
     (let n = (of_char c :: nat)
      in if (65 \<le> n \<and> n \<le> 90) \<or> (192 \<le> n \<and> n \<le> 222 \<and> n \<noteq> 215)
         then char_of (n + 32) else c)"

definition toLowerCase :: "string \<Rightarrow> string" where
  "toLowerCase s = map toLowerChar s"

text \<open>\<open>String.prototype.includes\<close>, \<open>startsWith\<close> and \<open>endsWith\<close>.\<close>

fun startsWith :: "string \<Rightarrow> string \<Rightarrow> bool" where
  "startsWith s [] = True"
| "startsWith [] (p # ps) = False"
| "startsWith (c # cs) (p # ps) = (c = p \<and> startsWith cs ps)"

fun includesStr :: "string \<Rightarrow> string \<Rightarrow> bool" where
  "includesStr [] t = (t = [])"
| "includesStr (c # cs) t = (startsWith (c # cs) t \<or> includesStr cs t)"

definition endsWith :: "string \<Rightarrow> string \<Rightarrow> bool" where
  "endsWith s t = (length t \<le> length s \<and> drop (length s - length t) s = t)"

text \<open>\<open>String(value)\<close>.\<close>

fun decimal :: "nat \<Rightarrow> string" where
  "decimal n =
     (if n < 10 then [char_of (48 + n)] else decimal (n div 10) @ [char_of (48 + n mod 10)])"

declare decimal.simps [simp del]

fun stringOf :: "jsValue \<Rightarrow> string" where
  "stringOf (JString s) = s"
| "stringOf (JNumber n) = (if n < 0 then CHR ''-'' # decimal (nat (- n)) else decimal (nat n))"
| "stringOf (JBoolean b) = (if b then ''true'' else ''false'')"
| "stringOf JNull = ''null''"
| "stringOf (JOther s) = s"

section \<open>Assertion validation (runner.ts, runAssertions and allAssertionsPassed)\<close>

text \<open>The body of each of the two loops of \<open>runAssertions\<close>.\<close>

definition checkContain :: "string \<Rightarrow> string \<Rightarrow> AssertionResult" where
  "checkContain resp a =
     (let found = includesStr (toLowerCase resp) (toLowerCase a)
      in \<lparr>assertion = a, AssertionResult.passed = found, found_in_response = Some found\<rparr>)"

definition checkNotContain :: "string \<Rightarrow> string \<Rightarrow> AssertionResult" where
  "checkNotContain resp a =
     (let found = includesStr (toLowerCase resp) (toLowerCase a)
      in \<lparr>assertion = a, AssertionResult.passed = \<not> found, found_in_response = Some found\<rparr>)"

definition runAssertions :: "string \<Rightarrow> Assertions \<Rightarrow> AssertionResults" where
  "runAssertions resp as =
     \<lparr>AssertionResults.should_contain =
        (case Assertions.should_contain as of
           None \<Rightarrow> []
         | Some xs \<Rightarrow> map (checkContain resp) xs),
      AssertionResults.should_not_contain =
        (case Assertions.should_not_contain as of
           None \<Rightarrow> []
         | Some xs \<Rightarrow> map (checkNotContain resp) xs)\<rparr>"

definition allAssertionsPassed :: "AssertionResults \<Rightarrow> bool" where
  "allAssertionsPassed assertionResults =
     (let allShouldContainPassed =
            list_all AssertionResult.passed (AssertionResults.should_contain assertionResults);
          allShouldNotContainPassed =
            list_all AssertionResult.passed (AssertionResults.should_not_contain assertionResults)
      in allShouldContainPassed \<and> allShouldNotContainPassed)"

section \<open>Regular expressions: \<open>new RegExp(p, 'g')\<close> and \<open>String.prototype.replace\<close>\<close>

text \<open>
  The fragment of ECMAScript patterns (without the \<open>u\<close> flag) that is modelled: single
  characters and \<open>.\<close>, each with an optional quantifier \<open>*\<close>, \<open>+\<close>, \<open>?\<close>, \<open>{n}\<close>,
  \<open>{n,}\<close>, \<open>{n,m}\<close>, greedy or lazy. A brace that does not open a quantifier is a
  literal, and so are \<open>}\<close> and \<open>]\<close>. Every other pattern (one with a group, a class, an
  escape, an alternative or an anchor, or one that is a syntax error) is left to the host.
\<close>

datatype atom = Lit char | AnyChar

datatype piece = Piece atom nat "nat option" bool

text \<open>The piece of a character that stands for itself, once.\<close>

definition literalPiece :: "char \<Rightarrow> piece" where
  "literalPiece c = Piece (Lit c) 1 (Some 1) True"

definition isDigit :: "char \<Rightarrow> bool" where
  "isDigit c = (c \<in> set ''0123456789'')"

definition digitValue :: "char \<Rightarrow> nat" where
  "digitValue c = of_char c - 48"

definition decimalValue :: "string \<Rightarrow> nat" where
  "decimalValue ds = foldl (\<lambda>n c. 10 * n + digitValue c) 0 ds"

text \<open>A braced quantifier at the head of the text: its bounds and its length in
  characters.\<close>

definition bracedQuantifier :: "string \<Rightarrow> ((nat \<times> nat option) \<times> nat) option" where
  "bracedQuantifier s =
     (case s of
        [] \<Rightarrow> None
      | c # r \<Rightarrow>
          if c \<noteq> CHR ''{'' then None
          else
            (let ds = takeWhile isDigit r; r1 = dropWhile isDigit r
             in if ds = [] then None
                else
                  (case r1 of
                     [] \<Rightarrow> None
                   | d # r2 \<Rightarrow>
                       if d = CHR ''}'' then
                         Some ((decimalValue ds, Some (decimalValue ds)), length ds + 2)
                       else if d = CHR '','' then
                         (let es = takeWhile isDigit r2; r3 = dropWhile isDigit r2
                          in case r3 of
                               [] \<Rightarrow> None
                             | e # r4 \<Rightarrow>
                                 if e = CHR ''}'' then
                                   Some ((decimalValue ds,
                                          if es = [] then None else Some (decimalValue es)),
                                         length ds + length es + 3)
                                 else None)
                       else None)))"

definition quantifierPrefix :: "string \<Rightarrow> ((nat \<times> nat option) \<times> nat) option" where
  "quantifierPrefix s =
     (case s of
        [] \<Rightarrow> None
      | c # r \<Rightarrow>
          if c = CHR ''*'' then Some ((0, None), 1)
          else if c = CHR ''+'' then Some ((1, None), 1)
          else if c = CHR ''?'' then Some ((0, Some 1), 1)
          else bracedQuantifier s)"

text \<open>A quantifier at the head of the text, with the \<open>?\<close> that makes it lazy.\<close>

definition quantifier :: "string \<Rightarrow> ((nat \<times> nat option \<times> bool) \<times> nat) option" where
  "quantifier s =
     (case quantifierPrefix s of
        None \<Rightarrow> None
      | Some ((lo, hi), n) \<Rightarrow>
          if startsWith (drop n s) ''?'' then Some ((lo, hi, False), n + 1)
          else Some ((lo, hi, True), n))"

definition outOfOrder :: "nat \<Rightarrow> nat option \<Rightarrow> bool" where
  "outOfOrder lo hi = (case hi of None \<Rightarrow> False | Some h \<Rightarrow> h < lo)"

text \<open>The pieces of a pattern; \<open>None\<close> when the pattern is outside the fragment.\<close>

fun parsePattern :: "string \<Rightarrow> piece list option" where
  "parsePattern [] = Some []"
| "parsePattern (c # cs) =
     (if c \<in> {CHR ''^'', CHR ''$'', CHR 0x5C, CHR ''('', CHR '')'', CHR ''['', CHR ''|''} then None
      else if quantifierPrefix (c # cs) \<noteq> None then None
      else
        (let a = (if c = CHR ''.'' then AnyChar else Lit c)
         in case quantifier cs of
              None \<Rightarrow> map_option ((#) (Piece a 1 (Some 1) True)) (parsePattern cs)
            | Some ((lo, hi, greedy), n) \<Rightarrow>
                if outOfOrder lo hi then None
                else map_option ((#) (Piece a lo hi greedy)) (parsePattern (drop n cs))))"

fun atomMatches :: "atom \<Rightarrow> char \<Rightarrow> bool" where
  "atomMatches (Lit c) d = (c = d)"
| "atomMatches AnyChar d = (d \<noteq> CHR 0x0A \<and> d \<noteq> CHR 0x0D)"

text \<open>The numbers of repetitions to try, in the order a backtracking matcher tries
  them.\<close>

definition attempts :: "nat \<Rightarrow> nat \<Rightarrow> bool \<Rightarrow> nat list" where
  "attempts lo hi greedy = (if greedy then rev [lo..<Suc hi] else [lo..<Suc hi])"

fun firstSome :: "('a \<Rightarrow> 'b option) \<Rightarrow> 'a list \<Rightarrow> 'b option" where
  "firstSome f [] = None"
| "firstSome f (x # xs) = (case f x of None \<Rightarrow> firstSome f xs | Some y \<Rightarrow> Some y)"

text \<open>The length of the match of the pieces at the head of the text, if there is one.\<close>

fun matchPieces :: "piece list \<Rightarrow> string \<Rightarrow> nat option" where
  "matchPieces [] s = Some 0"
| "matchPieces (Piece a lo hi greedy # ps) s =
     (let avail = length (takeWhile (atomMatches a) s);
          top = (case hi of None \<Rightarrow> avail | Some h \<Rightarrow> min h avail)
      in firstSome (\<lambda>k. map_option ((+) k) (matchPieces ps (drop k s)))
           (attempts lo top greedy))"

text \<open>\<open>GetSubstitution\<close>: the replacement text with its \<open>$\<close> patterns expanded. The
  fragment has no capture groups, so \<open>$1\<close> and \<open>$<name>\<close> stand for themselves.\<close>

fun getSubstitution :: "string \<Rightarrow> string \<Rightarrow> string \<Rightarrow> string \<Rightarrow> string" where
  "getSubstitution matched pre post [] = []"
| "getSubstitution matched pre post [c] = [c]"
| "getSubstitution matched pre post (c # d # r) =
     (if c \<noteq> CHR ''$'' then c # getSubstitution matched pre post (d # r)
      else if d = CHR ''$'' then CHR ''$'' # getSubstitution matched pre post r
      else if d = CHR ''&'' then matched @ getSubstitution matched pre post r
      else if d = CHR 0x60 then pre @ getSubstitution matched pre post r
      else if d = CHR 0x27 then post @ getSubstitution matched pre post r
      else c # getSubstitution matched pre post (d # r))"

text \<open>The global replacement: \<open>pre\<close> is the text already passed. After an empty match
  the search moves on by one character.\<close>

fun replaceFrom :: "piece list \<Rightarrow> string \<Rightarrow> string \<Rightarrow> string \<Rightarrow> string" where
  "replaceFrom ps r pre [] =
     (case matchPieces ps [] of
        None \<Rightarrow> []
      | Some n \<Rightarrow> getSubstitution [] pre [] r)"
| "replaceFrom ps r pre (c # cs) =
     (case matchPieces ps (c # cs) of
        None \<Rightarrow> c # replaceFrom ps r (pre @ [c]) cs
      | Some 0 \<Rightarrow> getSubstitution [] pre (c # cs) r @ c # replaceFrom ps r (pre @ [c]) cs
      | Some (Suc n) \<Rightarrow>
          getSubstitution (c # take n cs) pre (drop n cs) r
            @ replaceFrom ps r (pre @ c # take n cs) (drop n cs))"

definition replaceGlobal :: "'w Host \<Rightarrow> string \<Rightarrow> string \<Rightarrow> string \<Rightarrow> thrown + string" where
  "replaceGlobal host pattern subject r =
     (case parsePattern pattern of
        None \<Rightarrow> regexReplace host pattern subject r
      | Some ps \<Rightarrow> Inr (replaceFrom ps r [] subject))"

section \<open>Template processing (runner.ts, processTemplate)\<close>

text \<open>The loop over \<open>Object.entries(variables)\<close>; \<open>new RegExp\<close> may throw.\<close>

fun substituteEntries :: "'w Host \<Rightarrow> string \<Rightarrow> (string \<times> jsValue) list \<Rightarrow> thrown + string" where
  "substituteEntries host processed [] = Inr processed"
| "substituteEntries host processed ((key, v) # rest) =
     (let placeholder = ''{{'' @ key @ ''}}''
      in case replaceGlobal host placeholder processed (stringOf v) of
           Inl e \<Rightarrow> Inl e
         | Inr processed' \<Rightarrow> substituteEntries host processed' rest)"

text \<open>A match of \<open>/\{\{[^}]+\}\}/\<close> at the head of the text: its length.\<close>

definition matchPlaceholder :: "string \<Rightarrow> nat option" where
  "matchPlaceholder s =
     (if startsWith s ''{{'' then
        (let inner = takeWhile (\<lambda>c. c \<noteq> CHR ''}'') (drop 2 s)
         in if inner \<noteq> [] \<and> startsWith (drop (2 + length inner) s) ''}}''
            then Some (length inner + 4) else None)
      else None)"

text \<open>\<open>processed.match(/\{\{[^}]+\}\}/g)\<close>, with \<open>null\<close> as the empty list: what the
  warning about unsubstituted placeholders lists.\<close>

fun unsubstituted :: "string \<Rightarrow> string list" where
  "unsubstituted [] = []"
| "unsubstituted (c # cs) =
     (case matchPlaceholder (c # cs) of
        None \<Rightarrow> unsubstituted cs
      | Some n \<Rightarrow> take n (c # cs) # unsubstituted (drop (n - 1) cs))"

definition processTemplate :: "'w Host \<Rightarrow> string \<Rightarrow> (string \<times> jsValue) list \<Rightarrow> thrown + string" where
  "processTemplate host tmpl variables = substituteEntries host tmpl variables"

section \<open>The model client (harness/llm-client.ts, executePrompt)\<close>

text \<open>\<open>response.choices[0]?.message?.content || ''\<close>\<close>

definition firstContent :: "ChatCompletion \<Rightarrow> string" where
  "firstContent completion =
     (case choices completion of
        [] \<Rightarrow> []
      | Choice m # rest \<Rightarrow>
          (case m of
             None \<Rightarrow> []
           | Some (Message c) \<Rightarrow> orString c []))"

text \<open>The argument of \<open>openai.chat.completions.create\<close>: one user message with the
  prompt text, and the generation parameters.\<close>

definition chatRequest :: "string \<Rightarrow> PromptConfig \<Rightarrow> string option \<Rightarrow> ChatRequest" where
  "chatRequest promptText config override =
     \<lparr>ChatRequest.model =
        orString override (orString (PromptConfig.model config) ''gpt-3.5-turbo''),
      content = promptText,
      ChatRequest.temperature = orNumber (PromptConfig.temperature config) (Num (1 / 10)),
      ChatRequest.max_tokens = orNumber (PromptConfig.max_tokens config) (Num 500)\<rparr>"

definition executePrompt ::
  "'w Host \<Rightarrow> string \<Rightarrow> PromptConfig \<Rightarrow> string option \<Rightarrow> 'w \<Rightarrow> (thrown + string) \<times> 'w" where
  "executePrompt host promptText config override w =
     (case create host (chatRequest promptText config override) w of
        (Inl e, w') \<Rightarrow> (Inl (ErrorObject (''OpenAI API error: '' @ describe e)), w')
      | (Inr completion, w') \<Rightarrow> (Inr (firstContent completion), w'))"

section \<open>Test execution (runner.ts, executeTestPair)\<close>

text \<open>The result built in the \<open>catch\<close> block.\<close>

definition errorResult ::
  "RunnerConfig \<Rightarrow> PromptConfig \<Rightarrow> TestCase \<Rightarrow> int \<Rightarrow> thrown \<Rightarrow> TestResult" where
  "errorResult cfg prompt testCase elapsed e =
     \<lparr>prompt_name = PromptConfig.name prompt,
      test_case_name = TestCase.name testCase,
      model_used =
        orString (modelOverride cfg) (orString (PromptConfig.model prompt) ''gpt-3.5-turbo''),
      passed = False,
      response = [],
      assertions_checked =
        \<lparr>AssertionResults.should_contain = [], AssertionResults.should_not_contain = []\<rparr>,
      execution_time_ms = elapsed,
      error = Some (describe e)\<rparr>"

text \<open>The body of the loop over \<open>samples.test_cases\<close>: one test case, one result.\<close>

definition executeCase ::
  "'w Host \<Rightarrow> RunnerConfig \<Rightarrow> PromptConfig \<Rightarrow> TestCase \<Rightarrow> 'w \<Rightarrow> TestResult \<times> 'w" where
  "executeCase host cfg prompt testCase w =
     (case now host w of
        (startTime, w1) \<Rightarrow>
          (case processTemplate host (template prompt) (input testCase) of
             Inl e \<Rightarrow>
               (case now host w1 of
                  (t, w2) \<Rightarrow> (errorResult cfg prompt testCase (t - startTime) e, w2))
           | Inr processedPrompt \<Rightarrow>
               (case executePrompt host processedPrompt prompt (modelOverride cfg) w1 of
                  (Inl e, w2) \<Rightarrow>
                    (case now host w2 of
                       (t, w3) \<Rightarrow> (errorResult cfg prompt testCase (t - startTime) e, w3))
                | (Inr resp, w2) \<Rightarrow>
                    (let assertionResults = runAssertions resp (assertions testCase);
                         ok = allAssertionsPassed assertionResults
                     in case now host w2 of
                          (t, w3) \<Rightarrow>
                            (\<lparr>prompt_name = PromptConfig.name prompt,
                              test_case_name = TestCase.name testCase,
                              model_used =
                                orString (modelOverride cfg)
                                  (orString (PromptConfig.model prompt) ''gpt-3.5-turbo''),
                              passed = ok,
                              response = resp,
                              assertions_checked = assertionResults,
                              execution_time_ms = t - startTime,
                              error = None\<rparr>, w3)))))"

fun executeCases ::
  "'w Host \<Rightarrow> RunnerConfig \<Rightarrow> PromptConfig \<Rightarrow> TestCase list \<Rightarrow> 'w \<Rightarrow> TestResult list \<times> 'w" where
  "executeCases host cfg prompt [] w = ([], w)"
| "executeCases host cfg prompt (testCase # rest) w =
     (case executeCase host cfg prompt testCase w of
        (result, w1) \<Rightarrow>
          (case executeCases host cfg prompt rest w1 of
             (results, w2) \<Rightarrow> (result # results, w2)))"

definition executeTestPair ::
  "'w Host \<Rightarrow> RunnerConfig \<Rightarrow> PromptConfig \<times> SampleData \<Rightarrow> 'w \<Rightarrow> TestResult list \<times> 'w" where
  "executeTestPair host cfg pair w =
     (case pair of (prompt, samples) \<Rightarrow> executeCases host cfg prompt (test_cases samples) w)"

section \<open>Matching (runner.ts, matchPromptsWithSamples)\<close>

fun matchPromptsWithSamples ::
  "RunnerConfig \<Rightarrow> PromptConfig list \<Rightarrow> (string \<rightharpoonup> SampleData) \<Rightarrow> (PromptConfig \<times> SampleData) list" where
  "matchPromptsWithSamples cfg [] samples = []"
| "matchPromptsWithSamples cfg (prompt # prompts) samples =
     (if (case filter_name cfg of
            None \<Rightarrow> False
          | Some f \<Rightarrow> f \<noteq> [] \<and> PromptConfig.name prompt \<noteq> f)
      then matchPromptsWithSamples cfg prompts samples
      else
        (case samples (PromptConfig.name prompt) of
           Some sampleData \<Rightarrow> (prompt, sampleData) # matchPromptsWithSamples cfg prompts samples
         | None \<Rightarrow> matchPromptsWithSamples cfg prompts samples))"

section \<open>Loading (runner.ts, loadPrompts and loadSamples)\<close>

fun collectPrompts :: "FileSystem \<Rightarrow> string \<Rightarrow> string list \<Rightarrow> PromptConfig list" where
  "collectPrompts files dir [] = []"
| "collectPrompts files dir (f # fs) =
     (case loadYaml files dir f of
        Inl e \<Rightarrow> collectPrompts files dir fs
      | Inr prompt \<Rightarrow>
          if PromptConfig.name prompt = [] \<or> template prompt = []
          then collectPrompts files dir fs
          else prompt # collectPrompts files dir fs)"

definition loadPrompts :: "RunnerConfig \<Rightarrow> FileSystem \<Rightarrow> thrown + PromptConfig list" where
  "loadPrompts cfg files =
     (let promptsDir = promptDir cfg
      in if \<not> existsSync files promptsDir
         then Inl (ErrorObject (''Prompts directory not found: '' @ promptsDir))
         else
           (case readdirSync files promptsDir of
              Inl e \<Rightarrow> Inl e
            | Inr entries \<Rightarrow>
                (let yamlFiles =
                       filter (\<lambda>f. endsWith f ''.yaml'' \<or> endsWith f ''.yml'') entries
                 in if yamlFiles = []
                    then Inl (ErrorObject (''No YAML files found in: '' @ promptsDir))
                    else Inr (collectPrompts files promptsDir yamlFiles))))"

text \<open>\<open>path.basename(file, '.json')\<close> for a directory entry that ends with \<open>.json\<close>, and
  \<open>replace('_samples', '')\<close>, which removes the first occurrence.\<close>

definition basenameJson :: "string \<Rightarrow> string" where
  "basenameJson f = take (length f - 5) f"

fun removeFirst :: "string \<Rightarrow> string \<Rightarrow> string" where
  "removeFirst t [] = []"
| "removeFirst t (c # cs) =
     (if startsWith (c # cs) t then drop (length t) (c # cs) else c # removeFirst t cs)"

fun collectSamples ::
  "FileSystem \<Rightarrow> string \<Rightarrow> string list \<Rightarrow> (string \<rightharpoonup> SampleData) \<Rightarrow> (string \<rightharpoonup> SampleData)" where
  "collectSamples files dir [] samplesMap = samplesMap"
| "collectSamples files dir (f # fs) samplesMap =
     (case parseJson files dir f of
        Inl e \<Rightarrow> collectSamples files dir fs samplesMap
      | Inr sampleData \<Rightarrow>
          (let samples =
                 (case sampleData of
                    CaseArray cases \<Rightarrow> \<lparr>SampleData.prompt_name = None, test_cases = cases\<rparr>
                  | SampleObject d \<Rightarrow> d);
               promptName =
                 orString (SampleData.prompt_name samples)
                   (removeFirst ''_samples'' (basenameJson f))
           in collectSamples files dir fs (samplesMap(promptName \<mapsto> samples))))"

definition loadSamples :: "RunnerConfig \<Rightarrow> FileSystem \<Rightarrow> thrown + (string \<rightharpoonup> SampleData)" where
  "loadSamples cfg files =
     (let dir = samplesDir cfg
      in if \<not> existsSync files dir
         then Inl (ErrorObject (''Samples directory not found: '' @ dir))
         else
           (case readdirSync files dir of
              Inl e \<Rightarrow> Inl e
            | Inr entries \<Rightarrow>
                Inr (collectSamples files dir (filter (\<lambda>f. endsWith f ''.json'') entries)
                       Map.empty)))"

section \<open>The run (runner.ts, run)\<close>

text \<open>The loop over the test pairs.\<close>

fun executeAll ::
  "'w Host \<Rightarrow> RunnerConfig \<Rightarrow> (PromptConfig \<times> SampleData) list \<Rightarrow> 'w \<Rightarrow> TestResult list \<times> 'w" where
  "executeAll host cfg [] w = ([], w)"
| "executeAll host cfg (pair # pairs) w =
     (case executeTestPair host cfg pair w of
        (testResults, w1) \<Rightarrow>
          (case executeAll host cfg pairs w1 of
             (results, w2) \<Rightarrow> (testResults @ results, w2)))"

text \<open>
  The outcome of a run: what \<open>run\<close> returns or rethrows, what the reporter was given
  (\<open>None\<close> when \<open>report\<close> was not called), and the state of the world afterwards.
\<close>

record 'w RunOutcome =
  returned :: "thrown + TestResult list"
  reported :: "TestResult list option"
  world :: 'w

definition run :: "'w Host \<Rightarrow> RunnerConfig \<Rightarrow> FileSystem \<Rightarrow> 'w \<Rightarrow> 'w RunOutcome" where
  "run host cfg files w =
     (case now host w of
        (startTime, w0) \<Rightarrow>
          (case loadPrompts cfg files of
             Inl e \<Rightarrow> \<lparr>returned = Inl e, reported = None, world = w0\<rparr>
           | Inr prompts \<Rightarrow>
               (case loadSamples cfg files of
                  Inl e \<Rightarrow> \<lparr>returned = Inl e, reported = None, world = w0\<rparr>
                | Inr samples \<Rightarrow>
                    (let testPairs = matchPromptsWithSamples cfg prompts samples
                     in if testPairs = []
                        then \<lparr>returned = Inr [], reported = None, world = w0\<rparr>
                        else
                          (case executeAll host cfg testPairs w0 of
                             (results, w1) \<Rightarrow>
                               (case now host w1 of
                                  (endTime, w2) \<Rightarrow>
                                    \<lparr>returned = Inr results, reported = Some results,
                                     world = w2\<rparr>))))))"

section \<open>The order of results, as the specification words it\<close>

text \<open>
  The specification's reading of the result sequence: the test cases of all pairs, in pair
  order and within a pair in the collection's order, executed one after the other.
\<close>

definition casesInOrder :: "(PromptConfig \<times> SampleData) list \<Rightarrow> (PromptConfig \<times> TestCase) list" where
  "casesInOrder pairs = concat (map (\<lambda>(prompt, samples). map (Pair prompt) (test_cases samples)) pairs)"

fun runCasesInOrder ::
  "'w Host \<Rightarrow> RunnerConfig \<Rightarrow> (PromptConfig \<times> TestCase) list \<Rightarrow> 'w \<Rightarrow> TestResult list \<times> 'w" where
  "runCasesInOrder host cfg [] w = ([], w)"
| "runCasesInOrder host cfg ((prompt, testCase) # rest) w =
     (case executeCase host cfg prompt testCase w of
        (result, w1) \<Rightarrow>
          (case runCasesInOrder host cfg rest w1 of
             (results, w2) \<Rightarrow> (result # results, w2)))"

section \<open>Substitution and placeholders, as the specification words them\<close>

text \<open>
  The specification's reading of substitution: every occurrence of the literal token,
  from left to right, is replaced by the value as it stands.
\<close>

fun replaceLiteral :: "string \<Rightarrow> string \<Rightarrow> string \<Rightarrow> string" where
  "replaceLiteral tok v [] = []"
| "replaceLiteral tok v (c # cs) =
     (if tok \<noteq> [] \<and> prefix tok (c # cs)
      then v @ replaceLiteral tok v (drop (length tok - 1) cs)
      else c # replaceLiteral tok v cs)"

fun renderLiteral :: "string \<Rightarrow> (string \<times> jsValue) list \<Rightarrow> string" where
  "renderLiteral t [] = t"
| "renderLiteral t ((key, v) # rest) =
     renderLiteral (replaceLiteral (''{{'' @ key @ ''}}'') (stringOf v) t) rest"

text \<open>The keys of the placeholders that occur in a text, at any position: the text
  between \<open>{{\<close> and \<open>}}\<close> of every part of the text that \<open>/\{\{[^}]+\}\}/\<close> matches.\<close>

fun placeholderKeys :: "string \<Rightarrow> string list" where
  "placeholderKeys [] = []"
| "placeholderKeys (c # cs) =
     (case matchPlaceholder (c # cs) of
        None \<Rightarrow> placeholderKeys cs
      | Some n \<Rightarrow> take (n - 4) (drop 1 cs) # placeholderKeys cs)"

text \<open>The same keys as a set: the non-empty texts without \<open>}\<close> that stand
  between \<open>{{\<close> and \<open>}}\<close> somewhere in the text.\<close>

definition keysIn :: "string \<Rightarrow> string set" where
  "keysIn s = {k. k \<noteq> [] \<and> CHR ''}'' \<notin> set k \<and> (\<exists>a b. s = a @ ''{{'' @ k @ ''}}'' @ b)}"

text \<open>
  A plain key has none of the syntax characters of regular expressions and does not read
  as the bounds of a braced quantifier (\<open>n\<close>, \<open>n,\<close> or \<open>n,m\<close>) between its braces. A
  plain value is not empty and has no brace and no dollar sign.
\<close>

definition syntaxCharacters :: "char list" where
  "syntaxCharacters =
     [CHR ''^'', CHR ''$'', CHR 0x5C, CHR ''.'', CHR ''*'', CHR ''+'', CHR ''?'',
      CHR ''('', CHR '')'', CHR ''['', CHR '']'', CHR ''{'', CHR ''}'', CHR ''|'']"

definition plainKey :: "string \<Rightarrow> bool" where
  "plainKey k =
     (list_all (\<lambda>c. c \<notin> set syntaxCharacters) k
      \<and> quantifierPrefix (CHR ''{'' # k @ ''}}'') = None)"

definition plainValue :: "string \<Rightarrow> bool" where
  "plainValue s = (s \<noteq> [] \<and> list_all (\<lambda>c. c \<notin> set ''{}$'') s)"

section \<open>A scripted host and a small project, for concrete runs\<close>

text \<open>
  The world is a call counter. The model answers every call made at an even count and
  fails with a rate limit at an odd one; every call and every reading of the clock
  advances the count.
\<close>

definition scriptedHost :: "nat Host" where
  "scriptedHost =
     \<lparr>create = (\<lambda>request w.
        (if even w
         then Inr \<lparr>choices = [Choice (Some (Message (Some ''The capital is Paris'')))]\<rparr>
         else Inl (ErrorObject ''rate limit exceeded''), Suc w)),
      now = (\<lambda>w. (int w, Suc w)),
      regexReplace = (\<lambda>p s r. Inl (ErrorObject ''Invalid regular expression''))\<rparr>"

definition plainConfig :: RunnerConfig where
  "plainConfig =
     \<lparr>promptDir = ''prompts'', samplesDir = ''samples'', modelOverride = None,
      apiKey = ''key'', filter_name = None\<rparr>"

definition promptNamed :: "string \<Rightarrow> PromptConfig" where
  "promptNamed n =
     \<lparr>PromptConfig.name = n, version = ''1'', description = [],
      template = ''Capital of {{country}}?'', PromptConfig.model = None,
      PromptConfig.temperature = None, PromptConfig.max_tokens = None\<rparr>"

definition caseNamed :: "string \<Rightarrow> TestCase" where
  "caseNamed n =
     \<lparr>TestCase.name = n, input = [(''country'', JString ''France'')],
      assertions = \<lparr>Assertions.should_contain = Some [''paris''],
                    Assertions.should_not_contain = None\<rparr>\<rparr>"

text \<open>Two prompt files \<open>A.yaml\<close> and \<open>B.yaml\<close>, and a sample file with the cases \<open>1\<close>
  and \<open>2\<close> for each.\<close>

definition twoPrompts :: FileSystem where
  "twoPrompts =
     \<lparr>existsSync = (\<lambda>d. d = ''prompts'' \<or> d = ''samples''),
      readdirSync = (\<lambda>d. if d = ''prompts'' then Inr [''A.yaml'', ''B.yaml'', ''notes.txt'']
                          else Inr [''A_samples.json'', ''B.json'']),
      loadYaml = (\<lambda>d f. Inr (promptNamed (take 1 f))),
      parseJson = (\<lambda>d f. Inr (CaseArray [caseNamed ''1'', caseNamed ''2'']))\<rparr>"

text \<open>A project whose only prompt file cannot be parsed.\<close>

definition brokenPrompts :: FileSystem where
  "brokenPrompts =
     \<lparr>existsSync = (\<lambda>d. d = ''prompts'' \<or> d = ''samples''),
      readdirSync = (\<lambda>d. if d = ''prompts'' then Inr [''bad.yaml'']
                          else Inr [''bad_samples.json'']),
      loadYaml = (\<lambda>d f. Inl (ErrorObject ''bad indentation of a mapping entry'')),
      parseJson = (\<lambda>d f. Inr (CaseArray [caseNamed ''1'']))\<rparr>"

text \<open>A project with two prompt files, of which one cannot be parsed and the other has
  no template.\<close>

definition unusablePrompts :: FileSystem where
  "unusablePrompts =
     \<lparr>existsSync = (\<lambda>d. d = ''prompts'' \<or> d = ''samples''),
      readdirSync = (\<lambda>d. if d = ''prompts'' then Inr [''bad.yaml'', ''draft.yml'', ''notes.txt'']
                          else Inr [''draft.json'']),
      loadYaml = (\<lambda>d f. if f = ''bad.yaml''
                         then Inl (ErrorObject ''bad indentation of a mapping entry'')
                         else Inr ((promptNamed ''draft'')\<lparr>template := []\<rparr>)),
      parseJson = (\<lambda>d f. Inr (CaseArray [caseNamed ''1'']))\<rparr>"

text \<open>A project without a prompt directory.\<close>

definition noPromptDir :: FileSystem where
  "noPromptDir =
     \<lparr>existsSync = (\<lambda>d. d = ''samples''),
      readdirSync = (\<lambda>d. if d = ''samples'' then Inr [''A.json'']
                          else Inl (ErrorObject ''ENOENT: no such file or directory'')),
      loadYaml = (\<lambda>d f. Inl (ErrorObject ''ENOENT: no such file or directory'')),
      parseJson = (\<lambda>d f. Inr (CaseArray [caseNamed ''1'']))\<rparr>"

text \<open>A host that keeps the requests the model API receives, in order.\<close>

definition recordingHost :: "ChatRequest list Host" where
  "recordingHost =
     \<lparr>create = (\<lambda>request w. (Inr \<lparr>choices = []\<rparr>, w @ [request])),
      now = (\<lambda>w. (0, w)),
      regexReplace = (\<lambda>p s r. Inl (ErrorObject ''Invalid regular expression''))\<rparr>"

section \<open>Properties of the assertion evaluator\<close>

lemma startsWith_prefix: "startsWith s t = prefix t s"
  by (induction s t rule: startsWith.induct) auto

lemma includesStr_sublist: "includesStr s t = sublist t s"
  by (induction s) (auto simp: startsWith_prefix sublist_Cons_right)

text \<open>
  Claim C2. The evaluator lower-cases the response and every assertion string before the
  containment check. The outcome of an assertion \<open>A\<close> of \<open>should_contain\<close> passes exactly
  when lower-cased \<open>A\<close> is a contiguous part of the lower-cased response; the outcome of an
  assertion of \<open>should_not_contain\<close> passes exactly when it is not found. Each outcome list
  is the image of its assertion list, element by element, so order and duplicates are kept;
  a missing list gives the empty list.
\<close>

theorem runAssertions_outcomes:
  "AssertionResults.should_contain (runAssertions R as) =
     map (\<lambda>A. \<lparr>assertion = A,
                AssertionResult.passed = sublist (toLowerCase A) (toLowerCase R),
                found_in_response = Some (sublist (toLowerCase A) (toLowerCase R))\<rparr>)
       (case Assertions.should_contain as of None \<Rightarrow> [] | Some xs \<Rightarrow> xs)
   \<and> AssertionResults.should_not_contain (runAssertions R as) =
     map (\<lambda>A. \<lparr>assertion = A,
                AssertionResult.passed = (\<not> sublist (toLowerCase A) (toLowerCase R)),
                found_in_response = Some (sublist (toLowerCase A) (toLowerCase R))\<rparr>)
       (case Assertions.should_not_contain as of None \<Rightarrow> [] | Some xs \<Rightarrow> xs)"
  by (simp add: runAssertions_def checkContain_def checkNotContain_def includesStr_sublist
      Let_def split: option.split)

theorem runAssertions_outcomes_witness:
  "AssertionResults.should_contain
     (runAssertions ''The capital is Paris''
        \<lparr>Assertions.should_contain = Some [''paris'', ''Rome'', ''paris''],
         Assertions.should_not_contain = Some [''London'']\<rparr>) =
     [\<lparr>assertion = ''paris'', AssertionResult.passed = True, found_in_response = Some True\<rparr>,
      \<lparr>assertion = ''Rome'', AssertionResult.passed = False, found_in_response = Some False\<rparr>,
      \<lparr>assertion = ''paris'', AssertionResult.passed = True, found_in_response = Some True\<rparr>]"
proof -
  have a: "includesStr (toLowerCase ''The capital is Paris'') (toLowerCase ''paris'')"
    by code_simp
  have b: "\<not> includesStr (toLowerCase ''The capital is Paris'') (toLowerCase ''Rome'')"
    by code_simp
  show ?thesis
    using runAssertions_outcomes [of "''The capital is Paris''"
        "\<lparr>Assertions.should_contain = Some [''paris'', ''Rome'', ''paris''],
          Assertions.should_not_contain = Some [''London'']\<rparr>"] a b
    by (simp add: includesStr_sublist)
qed

lemma passed_checkContain:
  "AssertionResult.passed (checkContain R A) = sublist (toLowerCase A) (toLowerCase R)"
  by (simp add: checkContain_def includesStr_sublist Let_def)

lemma passed_checkNotContain:
  "AssertionResult.passed (checkNotContain R A) = (\<not> sublist (toLowerCase A) (toLowerCase R))"
  by (simp add: checkNotContain_def includesStr_sublist Let_def)

lemma allAssertionsPassed_list_all:
  "allAssertionsPassed results =
     (list_all AssertionResult.passed (AssertionResults.should_contain results)
      \<and> list_all AssertionResult.passed (AssertionResults.should_not_contain results))"
  by (simp add: allAssertionsPassed_def)

lemma allAssertionsPassed_runAssertions:
  "allAssertionsPassed (runAssertions R as) =
     ((\<forall>A \<in> set (case Assertions.should_contain as of None \<Rightarrow> [] | Some xs \<Rightarrow> xs).
         sublist (toLowerCase A) (toLowerCase R))
      \<and> (\<forall>A \<in> set (case Assertions.should_not_contain as of None \<Rightarrow> [] | Some xs \<Rightarrow> xs).
         \<not> sublist (toLowerCase A) (toLowerCase R)))"
proof -
  have c: "list_all AssertionResult.passed (map (checkContain R) xs) =
      (\<forall>A \<in> set xs. sublist (toLowerCase A) (toLowerCase R))" for xs
    by (simp add: list_all_iff passed_checkContain)
  have n: "list_all AssertionResult.passed (map (checkNotContain R) xs) =
      (\<forall>A \<in> set xs. \<not> sublist (toLowerCase A) (toLowerCase R))" for xs
    by (simp add: list_all_iff passed_checkNotContain)
  show ?thesis
    by (cases "Assertions.should_contain as"; cases "Assertions.should_not_contain as")
      (simp_all add: allAssertionsPassed_def runAssertions_def c n)
qed

text \<open>
  Claim C7. The aggregate flag is the conjunction of the \<open>passed\<close> flags of all
  \<open>should_contain\<close> outcomes and of all \<open>should_not_contain\<close> outcomes. For the outcomes
  that \<open>runAssertions\<close> computes this means: every \<open>should_contain\<close> string is found and no
  \<open>should_not_contain\<close> string is, a missing list counting as empty. With both lists
  empty or missing the flag is true whatever the response is.
\<close>

theorem allAssertionsPassed_conjunction:
  "allAssertionsPassed results =
     (list_all AssertionResult.passed (AssertionResults.should_contain results)
      \<and> list_all AssertionResult.passed (AssertionResults.should_not_contain results))
   \<and> allAssertionsPassed (runAssertions R as) =
     ((\<forall>A \<in> set (case Assertions.should_contain as of None \<Rightarrow> [] | Some xs \<Rightarrow> xs).
         sublist (toLowerCase A) (toLowerCase R))
      \<and> (\<forall>A \<in> set (case Assertions.should_not_contain as of None \<Rightarrow> [] | Some xs \<Rightarrow> xs).
         \<not> sublist (toLowerCase A) (toLowerCase R)))
   \<and> allAssertionsPassed (runAssertions R'
        \<lparr>Assertions.should_contain = None, Assertions.should_not_contain = None\<rparr>)
   \<and> allAssertionsPassed (runAssertions R'
        \<lparr>Assertions.should_contain = Some [], Assertions.should_not_contain = Some []\<rparr>)
   \<and> allAssertionsPassed (runAssertions R'
        \<lparr>Assertions.should_contain = None, Assertions.should_not_contain = Some []\<rparr>)
   \<and> allAssertionsPassed (runAssertions R'
        \<lparr>Assertions.should_contain = Some [], Assertions.should_not_contain = None\<rparr>)"
  by (simp add: allAssertionsPassed_list_all [symmetric] allAssertionsPassed_runAssertions)

theorem allAssertionsPassed_conjunction_witness:
  "allAssertionsPassed (runAssertions ''The capital is Paris''
      \<lparr>Assertions.should_contain = Some [''paris''],
       Assertions.should_not_contain = Some [''London'']\<rparr>)"
proof -
  have a: "includesStr (toLowerCase ''The capital is Paris'') (toLowerCase ''paris'')"
    by code_simp
  have b: "\<not> includesStr (toLowerCase ''The capital is Paris'') (toLowerCase ''London'')"
    by code_simp
  show ?thesis
    using allAssertionsPassed_conjunction [where R = "''The capital is Paris''"
        and as = "\<lparr>Assertions.should_contain = Some [''paris''],
          Assertions.should_not_contain = Some [''London'']\<rparr>",
        THEN conjunct2, THEN conjunct1] a b
    by (simp add: includesStr_sublist)
qed

text \<open>
  Claim C10. Whatever the response is, an empty assertion string in \<open>should_contain\<close>
  yields an outcome that is found and passes, and an empty assertion string in
  \<open>should_not_contain\<close> yields an outcome that is found and fails, at the position of
  the string in its list.
\<close>

theorem empty_assertion_always_found:
  "AssertionResults.should_contain
     (runAssertions R \<lparr>Assertions.should_contain = Some (xs @ [''''] @ ys),
                       Assertions.should_not_contain = n\<rparr>) ! length xs =
     \<lparr>assertion = '''', AssertionResult.passed = True, found_in_response = Some True\<rparr>
   \<and> AssertionResults.should_not_contain
     (runAssertions R \<lparr>Assertions.should_contain = c,
                       Assertions.should_not_contain = Some (xs @ [''''] @ ys)\<rparr>) ! length xs =
     \<lparr>assertion = '''', AssertionResult.passed = False, found_in_response = Some True\<rparr>"
  by (simp add: runAssertions_def checkContain_def checkNotContain_def includesStr_sublist
      toLowerCase_def nth_append)

section \<open>Properties of the execution engine\<close>

lemma executeCases_append:
  "executeCases host cfg prompt (xs @ ys) w =
     (case executeCases host cfg prompt xs w of
        (rs, w1) \<Rightarrow>
          (case executeCases host cfg prompt ys w1 of (rs', w2) \<Rightarrow> (rs @ rs', w2)))"
  by (induction xs arbitrary: w) (auto split: prod.splits)

lemma executePrompt_failure:
  "executePrompt host promptText config override w = (Inl e, w') \<longleftrightarrow>
     (\<exists>e'. create host (chatRequest promptText config override) w = (Inl e', w')
           \<and> e = ErrorObject (''OpenAI API error: '' @ describe e'))"
  by (auto simp: executePrompt_def split: prod.splits sum.splits)

lemma executeCase_failure:
  assumes "now host w = (t0, w1)"
    and "processTemplate host (template prompt) (input testCase) = Inr promptText"
    and "executePrompt host promptText prompt (modelOverride cfg) w1 = (Inl e, w2)"
    and "now host w2 = (t1, w3)"
  shows "executeCase host cfg prompt testCase w =
     (\<lparr>prompt_name = PromptConfig.name prompt,
       test_case_name = TestCase.name testCase,
       model_used =
         orString (modelOverride cfg) (orString (PromptConfig.model prompt) ''gpt-3.5-turbo''),
       passed = False,
       response = [],
       assertions_checked =
         \<lparr>AssertionResults.should_contain = [], AssertionResults.should_not_contain = []\<rparr>,
       execution_time_ms = t1 - t0,
       error = Some (describe e)\<rparr>, w3)"
  using assms by (simp add: executeCase_def errorResult_def)

text \<open>
  Claim C1. When the model invocation of a test case fails, the engine appends a result
  with \<open>passed = false\<close>, an empty response, empty outcome lists and \<open>error\<close> set to the
  message of the failure, and goes on with the next test case: the results of the earlier
  cases stand as they were, and the later cases are executed from the state the failed
  case left.
\<close>

theorem invocation_failure_is_recorded:
  assumes "executeCases host cfg prompt earlier w = (rs, wa)"
    and "now host wa = (t0, w1)"
    and "processTemplate host (template prompt) (input testCase) = Inr promptText"
    and "executePrompt host promptText prompt (modelOverride cfg) w1 = (Inl e, w2)"
    and "now host w2 = (t1, w3)"
    and "executeCases host cfg prompt later w3 = (rs', wb)"
    and "test_cases samples = earlier @ testCase # later"
  shows "executeTestPair host cfg (prompt, samples) w =
     (rs @
      \<lparr>prompt_name = PromptConfig.name prompt,
       test_case_name = TestCase.name testCase,
       model_used =
         orString (modelOverride cfg) (orString (PromptConfig.model prompt) ''gpt-3.5-turbo''),
       passed = False,
       response = [],
       assertions_checked =
         \<lparr>AssertionResults.should_contain = [], AssertionResults.should_not_contain = []\<rparr>,
       execution_time_ms = t1 - t0,
       error = Some (describe e)\<rparr> # rs', wb)"
proof -
  have "executeCases host cfg prompt (testCase # later) wa =
      (\<lparr>prompt_name = PromptConfig.name prompt,
        test_case_name = TestCase.name testCase,
        model_used =
          orString (modelOverride cfg) (orString (PromptConfig.model prompt) ''gpt-3.5-turbo''),
        passed = False,
        response = [],
        assertions_checked =
          \<lparr>AssertionResults.should_contain = [], AssertionResults.should_not_contain = []\<rparr>,
        execution_time_ms = t1 - t0,
        error = Some (describe e)\<rparr> # rs', wb)"
    using executeCase_failure [OF assms(2-5)] assms(6) by simp
  then show ?thesis
    using assms(1,7) by (simp add: executeTestPair_def executeCases_append)
qed

theorem invocation_failure_is_recorded_witness:
  "map TestResult.error
     (fst (executeTestPair scriptedHost plainConfig
        (promptNamed ''A'',
         \<lparr>SampleData.prompt_name = None,
          test_cases = [caseNamed ''1'', caseNamed ''2'', caseNamed ''3'']\<rparr>) 1)) =
     [None, Some ''OpenAI API error: rate limit exceeded'', None]
   \<and> map TestResult.passed
     (fst (executeTestPair scriptedHost plainConfig
        (promptNamed ''A'',
         \<lparr>SampleData.prompt_name = None,
          test_cases = [caseNamed ''1'', caseNamed ''2'', caseNamed ''3'']\<rparr>) 1)) =
     [True, False, True]"
proof -
  let ?h = scriptedHost and ?c = plainConfig and ?p = "promptNamed ''A''"
  have h1: "executeCases ?h ?c ?p [caseNamed ''1''] 1 =
      (fst (executeCases ?h ?c ?p [caseNamed ''1''] 1), 4)"
    by code_simp
  have h2: "now ?h 4 = (4, 5)"
    by code_simp
  have h3: "processTemplate ?h (template ?p) (input (caseNamed ''2'')) =
      Inr ''Capital of France?''"
    by code_simp
  have h4: "executePrompt ?h ''Capital of France?'' ?p (modelOverride ?c) 5 =
      (Inl (ErrorObject ''OpenAI API error: rate limit exceeded''), 6)"
    by code_simp
  have h5: "now ?h 6 = (6, 7)"
    by code_simp
  have h6: "executeCases ?h ?c ?p [caseNamed ''3''] 7 =
      (fst (executeCases ?h ?c ?p [caseNamed ''3''] 7), 10)"
    by code_simp
  have h7: "test_cases \<lparr>SampleData.prompt_name = None,
      test_cases = [caseNamed ''1'', caseNamed ''2'', caseNamed ''3'']\<rparr> =
      [caseNamed ''1''] @ caseNamed ''2'' # [caseNamed ''3'']"
    by simp
  have e1: "map TestResult.error (fst (executeCases ?h ?c ?p [caseNamed ''1''] 1)) = [None]"
    by code_simp
  have e3: "map TestResult.error (fst (executeCases ?h ?c ?p [caseNamed ''3''] 7)) = [None]"
    by code_simp
  have p1: "map TestResult.passed (fst (executeCases ?h ?c ?p [caseNamed ''1''] 1)) = [True]"
    by code_simp
  have p3: "map TestResult.passed (fst (executeCases ?h ?c ?p [caseNamed ''3''] 7)) = [True]"
    by code_simp
  show ?thesis
    using invocation_failure_is_recorded [OF h1 h2 h3 h4 h5 h6 h7] e1 e3 p1 p3
    by simp
qed

lemma runCasesInOrder_append:
  "runCasesInOrder host cfg (xs @ ys) w =
     (case runCasesInOrder host cfg xs w of
        (rs, w1) \<Rightarrow>
          (case runCasesInOrder host cfg ys w1 of (rs', w2) \<Rightarrow> (rs @ rs', w2)))"
  by (induction xs arbitrary: w) (auto split: prod.splits)

lemma executeCases_in_order:
  "executeCases host cfg prompt cases w =
     runCasesInOrder host cfg (map (Pair prompt) cases) w"
  by (induction cases arbitrary: w) (auto split: prod.splits)

lemma executeAll_in_order:
  "executeAll host cfg pairs w = runCasesInOrder host cfg (casesInOrder pairs) w"
proof (induction pairs arbitrary: w)
  case Nil
  show ?case by (simp add: casesInOrder_def)
next
  case (Cons pair pairs)
  obtain prompt samples where p: "pair = (prompt, samples)" by (cases pair)
  have c: "casesInOrder ((prompt, samples) # pairs) =
      map (Pair prompt) (test_cases samples) @ casesInOrder pairs"
    by (simp add: casesInOrder_def)
  show ?case
    by (simp add: c runCasesInOrder_append executeTestPair_def p executeCases_in_order Cons.IH)
qed

lemma executeCase_names:
  "prompt_name (fst (executeCase host cfg prompt testCase w)) = PromptConfig.name prompt
   \<and> test_case_name (fst (executeCase host cfg prompt testCase w)) = TestCase.name testCase"
  by (simp add: executeCase_def errorResult_def Let_def split: prod.splits sum.splits)

lemma runCasesInOrder_names:
  "map (\<lambda>r. (prompt_name r, test_case_name r)) (fst (runCasesInOrder host cfg cs w)) =
     map (\<lambda>(prompt, testCase). (PromptConfig.name prompt, TestCase.name testCase)) cs"
proof (induction cs arbitrary: w)
  case Nil
  show ?case by simp
next
  case (Cons c cs)
  obtain prompt testCase where c: "c = (prompt, testCase)" by (cases c)
  obtain r w1 where e: "executeCase host cfg prompt testCase w = (r, w1)"
    by (cases "executeCase host cfg prompt testCase w")
  obtain rs w2 where rest: "runCasesInOrder host cfg cs w1 = (rs, w2)"
    by (cases "runCasesInOrder host cfg cs w1")
  have "prompt_name r = PromptConfig.name prompt \<and> test_case_name r = TestCase.name testCase"
    using executeCase_names [of host cfg prompt testCase w] e by simp
  moreover have "map (\<lambda>r. (prompt_name r, test_case_name r)) rs =
      map (\<lambda>(prompt, testCase). (PromptConfig.name prompt, TestCase.name testCase)) cs"
    using Cons.IH [of w1] rest by simp
  ultimately show ?case by (simp add: c e rest)
qed

text \<open>
  Claim C6. The result sequence of a run is the sequence of per-case results over the
  matched pairs in pair order and, within a pair, in the collection's case order, each
  case executed after the one before it; the names of the results, successful or failed,
  appear in exactly this order.
\<close>

theorem results_in_pair_then_case_order:
  assumes "loadPrompts cfg files = Inr prompts"
    and "loadSamples cfg files = Inr samples"
    and "pairs = matchPromptsWithSamples cfg prompts samples"
  shows "executeAll host cfg pairs w = runCasesInOrder host cfg (casesInOrder pairs) w
    \<and> returned (run host cfg files w) =
        Inr (fst (runCasesInOrder host cfg (casesInOrder pairs) (snd (now host w))))
    \<and> map (\<lambda>r. (prompt_name r, test_case_name r))
         (fst (runCasesInOrder host cfg (casesInOrder pairs) (snd (now host w)))) =
       map (\<lambda>(prompt, testCase). (PromptConfig.name prompt, TestCase.name testCase))
         (casesInOrder pairs)"
proof -
  have "returned (run host cfg files w) =
      Inr (fst (runCasesInOrder host cfg (casesInOrder pairs) (snd (now host w))))"
  proof (cases "pairs = []")
    case True
    then show ?thesis
      using assms by (simp add: run_def casesInOrder_def split: prod.splits)
  next
    case False
    then show ?thesis
      using assms
      by (simp add: run_def executeAll_in_order [symmetric] split: prod.splits)
  qed
  then show ?thesis
    by (simp add: executeAll_in_order runCasesInOrder_names)
qed

theorem results_in_pair_then_case_order_witness:
  "map (\<lambda>r. (prompt_name r, test_case_name r))
     (case returned (run scriptedHost plainConfig twoPrompts 0) of Inl e \<Rightarrow> [] | Inr rs \<Rightarrow> rs) =
     [(''A'', ''1''), (''A'', ''2''), (''B'', ''1''), (''B'', ''2'')]
   \<and> map TestResult.passed
     (case returned (run scriptedHost plainConfig twoPrompts 0) of Inl e \<Rightarrow> [] | Inr rs \<Rightarrow> rs) =
     [True, False, True, False]"
proof -
  let ?A = "promptNamed ''A''" and ?B = "promptNamed ''B''"
  let ?s = "\<lparr>SampleData.prompt_name = None, test_cases = [caseNamed ''1'', caseNamed ''2'']\<rparr>"
  have h1: "loadPrompts plainConfig twoPrompts = Inr [?A, ?B]"
    by code_simp
  have h2: "loadSamples plainConfig twoPrompts = Inr [''A'' \<mapsto> ?s, ''B'' \<mapsto> ?s]"
    by (simp add: loadSamples_def twoPrompts_def plainConfig_def endsWith_def
        basenameJson_def orString_def Let_def)
  have h3: "[(?A, ?s), (?B, ?s)] =
      matchPromptsWithSamples plainConfig [?A, ?B] [''A'' \<mapsto> ?s, ''B'' \<mapsto> ?s]"
    by (simp add: plainConfig_def promptNamed_def)
  have n: "snd (now scriptedHost 0) = 1"
    by code_simp
  have c: "casesInOrder [(?A, ?s), (?B, ?s)] =
      [(?A, caseNamed ''1''), (?A, caseNamed ''2''), (?B, caseNamed ''1''), (?B, caseNamed ''2'')]"
    by (simp add: casesInOrder_def)
  have r: "map TestResult.passed (fst (runCasesInOrder scriptedHost plainConfig
      [(?A, caseNamed ''1''), (?A, caseNamed ''2''), (?B, caseNamed ''1''), (?B, caseNamed ''2'')] 1)) =
      [True, False, True, False]"
    by code_simp
  have m: "PromptConfig.name ?A = ''A''" "PromptConfig.name ?B = ''B''"
    "TestCase.name (caseNamed ''1'') = ''1''" "TestCase.name (caseNamed ''2'') = ''2''"
    by (simp_all add: promptNamed_def caseNamed_def)
  show ?thesis
    using results_in_pair_then_case_order [OF h1 h2 h3, of scriptedHost 0] r
    by (simp add: n c m)
qed

section \<open>Properties of the matcher\<close>

lemma matchPromptsWithSamples_concat:
  "matchPromptsWithSamples cfg prompts samples =
     concat (map (\<lambda>prompt.
        if (\<exists>f. filter_name cfg = Some f \<and> f \<noteq> [] \<and> PromptConfig.name prompt \<noteq> f) then []
        else (case samples (PromptConfig.name prompt) of
                None \<Rightarrow> []
              | Some sampleData \<Rightarrow> [(prompt, sampleData)])) prompts)"
  by (induction prompts) (auto split: option.splits)

text \<open>
  Claim C5. The matcher goes through the prompts in load order. A prompt whose name
  differs from the filter, when a filter is set (given and not empty), contributes no
  pair; a prompt without a sample collection of its name contributes no pair; every other
  prompt contributes exactly one pair, whatever the number of test cases of its
  collection. The pair of a collection without test cases yields no results.
\<close>

theorem matcher_pairs:
  "matchPromptsWithSamples cfg prompts samples =
     concat (map (\<lambda>prompt.
        if (\<exists>f. filter_name cfg = Some f \<and> f \<noteq> [] \<and> PromptConfig.name prompt \<noteq> f) then []
        else (case samples (PromptConfig.name prompt) of
                None \<Rightarrow> []
              | Some sampleData \<Rightarrow> [(prompt, sampleData)])) prompts)
   \<and> (test_cases emptyCollection = [] \<longrightarrow>
        executeTestPair host cfg (prompt, emptyCollection) w = ([], w))"
  by (simp add: matchPromptsWithSamples_concat [symmetric] executeTestPair_def)

theorem matcher_pairs_witness:
  "matchPromptsWithSamples (plainConfig\<lparr>filter_name := Some ''C''\<rparr>)
     [promptNamed ''A'', promptNamed ''B'', promptNamed ''C'', promptNamed ''c'']
     [''A'' \<mapsto> \<lparr>SampleData.prompt_name = None, test_cases = [caseNamed ''1'']\<rparr>,
      ''C'' \<mapsto> \<lparr>SampleData.prompt_name = None, test_cases = []\<rparr>] =
     [(promptNamed ''C'', \<lparr>SampleData.prompt_name = None, test_cases = []\<rparr>)]
   \<and> matchPromptsWithSamples plainConfig
     [promptNamed ''A'', promptNamed ''B'', promptNamed ''C'', promptNamed ''c'']
     [''A'' \<mapsto> \<lparr>SampleData.prompt_name = None, test_cases = [caseNamed ''1'']\<rparr>,
      ''C'' \<mapsto> \<lparr>SampleData.prompt_name = None, test_cases = []\<rparr>] =
     [(promptNamed ''A'', \<lparr>SampleData.prompt_name = None, test_cases = [caseNamed ''1'']\<rparr>),
      (promptNamed ''C'', \<lparr>SampleData.prompt_name = None, test_cases = []\<rparr>)]
   \<and> executeTestPair scriptedHost plainConfig
       (promptNamed ''C'', \<lparr>SampleData.prompt_name = None, test_cases = []\<rparr>) 0 = ([], 0)"
  using matcher_pairs [of "plainConfig\<lparr>filter_name := Some ''C''\<rparr>"
      "[promptNamed ''A'', promptNamed ''B'', promptNamed ''C'', promptNamed ''c'']"
      "[''A'' \<mapsto> \<lparr>SampleData.prompt_name = None, test_cases = [caseNamed ''1'']\<rparr>,
        ''C'' \<mapsto> \<lparr>SampleData.prompt_name = None, test_cases = []\<rparr>]"
      "\<lparr>SampleData.prompt_name = None, test_cases = []\<rparr>" scriptedHost
      "promptNamed ''C''" 0]
    matcher_pairs [of plainConfig
      "[promptNamed ''A'', promptNamed ''B'', promptNamed ''C'', promptNamed ''c'']"
      "[''A'' \<mapsto> \<lparr>SampleData.prompt_name = None, test_cases = [caseNamed ''1'']\<rparr>,
        ''C'' \<mapsto> \<lparr>SampleData.prompt_name = None, test_cases = []\<rparr>]"
      "\<lparr>SampleData.prompt_name = None, test_cases = []\<rparr>" scriptedHost
      "promptNamed ''C''" 0]
  by (simp add: plainConfig_def promptNamed_def executeTestPair_def)

section \<open>Properties of the model client\<close>

lemma chatRequest_model:
  "ChatRequest.model (chatRequest promptText config override) =
     (case override of
        Some m \<Rightarrow> if m \<noteq> [] then m
                  else (case PromptConfig.model config of
                          Some m' \<Rightarrow> if m' \<noteq> [] then m' else ''gpt-3.5-turbo''
                        | None \<Rightarrow> ''gpt-3.5-turbo'')
      | None \<Rightarrow> (case PromptConfig.model config of
                   Some m' \<Rightarrow> if m' \<noteq> [] then m' else ''gpt-3.5-turbo''
                 | None \<Rightarrow> ''gpt-3.5-turbo''))"
  by (simp add: chatRequest_def orString_def split: option.splits)

text \<open>
  Claim C9. A prompt that sets \<open>temperature: 0\<close> and \<open>max_tokens: 0\<close> is sent to the model
  with temperature \<open>0.1\<close> and \<open>max_tokens\<close> 500: \<open>||\<close> replaces every falsy value, not
  only a missing one.
\<close>

theorem zero_temperature_is_replaced:
  "snd (executePrompt recordingHost ''hi''
          ((promptNamed ''A'')\<lparr>PromptConfig.temperature := Some (Num 0),
                                PromptConfig.max_tokens := Some (Num 0)\<rparr>) None []) =
     [\<lparr>ChatRequest.model = ''gpt-3.5-turbo'', content = ''hi'',
       ChatRequest.temperature = Num (1 / 10), ChatRequest.max_tokens = Num 500\<rparr>]"
  by (simp add: executePrompt_def recordingHost_def chatRequest_def promptNamed_def
      orString_def orNumber_def)

lemma chatRequest_temperature:
  "ChatRequest.temperature (chatRequest promptText config override) =
     (case PromptConfig.temperature config of
        None \<Rightarrow> Num (1 / 10)
      | Some t \<Rightarrow> if t = NaN \<or> t = Num 0 then Num (1 / 10) else t)"
  by (cases "PromptConfig.temperature config")
    (auto simp: chatRequest_def orNumber_def elim: truthy.elims)

lemma chatRequest_max_tokens:
  "ChatRequest.max_tokens (chatRequest promptText config override) =
     (case PromptConfig.max_tokens config of
        None \<Rightarrow> Num 500
      | Some t \<Rightarrow> if t = NaN \<or> t = Num 0 then Num 500 else t)"
  by (cases "PromptConfig.max_tokens config")
    (auto simp: chatRequest_def orNumber_def elim: truthy.elims)

lemma model_used_is_model_sent:
  "model_used (fst (executeCase host cfg prompt testCase w)) =
     ChatRequest.model (chatRequest promptText prompt (modelOverride cfg))"
  by (simp add: executeCase_def errorResult_def chatRequest_def Let_def
      split: prod.splits sum.splits)

text \<open>
  What the request carries in general: the model name is the override, else the prompt's
  model, else \<open>gpt-3.5-turbo\<close>, an empty name counting as none; the same name is recorded
  as \<open>model_used\<close>; temperature and \<open>max_tokens\<close> are the prompt's values unless these are
  missing, zero or \<open>NaN\<close>, in which case they are \<open>0.1\<close> and 500.
\<close>

theorem generation_parameters:
  "ChatRequest.model (chatRequest promptText config override) =
     (case override of
        Some m \<Rightarrow> if m \<noteq> [] then m
                  else (case PromptConfig.model config of
                          Some m' \<Rightarrow> if m' \<noteq> [] then m' else ''gpt-3.5-turbo''
                        | None \<Rightarrow> ''gpt-3.5-turbo'')
      | None \<Rightarrow> (case PromptConfig.model config of
                   Some m' \<Rightarrow> if m' \<noteq> [] then m' else ''gpt-3.5-turbo''
                 | None \<Rightarrow> ''gpt-3.5-turbo''))
   \<and> model_used (fst (executeCase host cfg config testCase w)) =
       ChatRequest.model (chatRequest promptText config (modelOverride cfg))
   \<and> ChatRequest.temperature (chatRequest promptText config override) =
     (case PromptConfig.temperature config of
        None \<Rightarrow> Num (1 / 10)
      | Some t \<Rightarrow> if t = NaN \<or> t = Num 0 then Num (1 / 10) else t)
   \<and> ChatRequest.max_tokens (chatRequest promptText config override) =
     (case PromptConfig.max_tokens config of
        None \<Rightarrow> Num 500
      | Some t \<Rightarrow> if t = NaN \<or> t = Num 0 then Num 500 else t)"
  by (intro conjI chatRequest_model chatRequest_temperature chatRequest_max_tokens
      model_used_is_model_sent)

section \<open>Properties of the loaders and of the run\<close>

text \<open>
  Claim C8, as stated, fails: when the prompt directory holds prompt files and none of
  them can be parsed, the loader returns no prompts, and the run ends normally with an
  empty result sequence.
\<close>

theorem unparseable_prompts_do_not_abort:
  "loadPrompts plainConfig brokenPrompts = Inr []
   \<and> run scriptedHost plainConfig brokenPrompts 0 =
       \<lparr>returned = Inr [], reported = None, world = 1\<rparr>"
  by code_simp

lemma run_loadPrompts_fails:
  "loadPrompts cfg files = Inl e \<Longrightarrow>
     run host cfg files w = \<lparr>returned = Inl e, reported = None, world = snd (now host w)\<rparr>"
  by (simp add: run_def split: prod.splits)

lemma run_loadSamples_fails:
  "loadPrompts cfg files = Inr prompts \<Longrightarrow> loadSamples cfg files = Inl e \<Longrightarrow>
     run host cfg files w = \<lparr>returned = Inl e, reported = None, world = snd (now host w)\<rparr>"
  by (simp add: run_def split: prod.splits)

lemma run_no_prompts:
  "loadPrompts cfg files = Inr [] \<Longrightarrow> loadSamples cfg files = Inr samples \<Longrightarrow>
     run host cfg files w = \<lparr>returned = Inr [], reported = None, world = snd (now host w)\<rparr>"
  by (simp add: run_def split: prod.splits)

lemma collectPrompts_none:
  "collectPrompts files dir fs = [] \<longleftrightarrow>
     list_all (\<lambda>f. case loadYaml files dir f of
                      Inl e \<Rightarrow> True
                    | Inr prompt \<Rightarrow> PromptConfig.name prompt = [] \<or> template prompt = []) fs"
  by (induction fs) (auto split: sum.splits)

lemma loadPrompts_none:
  assumes "existsSync files (promptDir cfg)"
    and "readdirSync files (promptDir cfg) = Inr entries"
    and "filter (\<lambda>f. endsWith f ''.yaml'' \<or> endsWith f ''.yml'') entries \<noteq> []"
    and "list_all (\<lambda>f. case loadYaml files (promptDir cfg) f of
                          Inl e \<Rightarrow> True
                        | Inr prompt \<Rightarrow> PromptConfig.name prompt = [] \<or> template prompt = [])
           (filter (\<lambda>f. endsWith f ''.yaml'' \<or> endsWith f ''.yml'') entries)"
  shows "loadPrompts cfg files = Inr []"
  using assms collectPrompts_none [of files "promptDir cfg"
      "filter (\<lambda>f. endsWith f ''.yaml'' \<or> endsWith f ''.yml'') entries"]
  by (simp add: loadPrompts_def Let_def)

lemma run_samples_missing:
  assumes "\<not> existsSync files (samplesDir cfg)"
  shows "\<exists>e. run host cfg files w =
      \<lparr>returned = Inl e, reported = None, world = snd (now host w)\<rparr>"
proof (cases "loadPrompts cfg files")
  case (Inl e)
  then show ?thesis by (intro exI) (rule run_loadPrompts_fails)
next
  case (Inr prompts)
  from assms have "loadSamples cfg files =
      Inl (ErrorObject (''Samples directory not found: '' @ samplesDir cfg))"
    by (simp add: loadSamples_def)
  then show ?thesis by (intro exI) (rule run_loadSamples_fails [OF Inr])
qed

text \<open>
  Claim C8, amended. If the prompt directory is missing or holds no YAML file, or if the
  sample directory is missing, the run aborts with a fatal error: nothing is reported, and
  the world is as the first reading of the clock left it, so no test case was executed.
  If the prompt directory holds YAML files and every one of them fails to parse or lacks
  its name or its template (and the sample directory can be read), the run does not abort:
  it returns the empty result sequence, again with nothing reported and no test case
  executed.
\<close>

theorem missing_sources_abort_the_run:
  "(\<not> existsSync files (promptDir cfg)
      \<or> (\<exists>listed. readdirSync files (promptDir cfg) = Inr listed
            \<and> filter (\<lambda>f. endsWith f ''.yaml'' \<or> endsWith f ''.yml'') listed = [])
      \<or> \<not> existsSync files (samplesDir cfg)
    \<longrightarrow> (\<exists>e. run host cfg files w =
            \<lparr>returned = Inl e, reported = None, world = snd (now host w)\<rparr>))
   \<and> (existsSync files (promptDir cfg)
        \<and> readdirSync files (promptDir cfg) = Inr entries
        \<and> filter (\<lambda>f. endsWith f ''.yaml'' \<or> endsWith f ''.yml'') entries \<noteq> []
        \<and> list_all (\<lambda>f. case loadYaml files (promptDir cfg) f of
                            Inl e \<Rightarrow> True
                          | Inr prompt \<Rightarrow> PromptConfig.name prompt = [] \<or> template prompt = [])
             (filter (\<lambda>f. endsWith f ''.yaml'' \<or> endsWith f ''.yml'') entries)
        \<and> existsSync files (samplesDir cfg)
        \<and> readdirSync files (samplesDir cfg) = Inr sampleEntries
    \<longrightarrow> run host cfg files w =
          \<lparr>returned = Inr [], reported = None, world = snd (now host w)\<rparr>)"
proof (intro conjI impI)
  assume "\<not> existsSync files (promptDir cfg)
      \<or> (\<exists>listed. readdirSync files (promptDir cfg) = Inr listed
            \<and> filter (\<lambda>f. endsWith f ''.yaml'' \<or> endsWith f ''.yml'') listed = [])
      \<or> \<not> existsSync files (samplesDir cfg)"
  then consider
    (a) "\<not> existsSync files (promptDir cfg)"
    | (b) listed where "existsSync files (promptDir cfg)"
      "readdirSync files (promptDir cfg) = Inr listed"
      "filter (\<lambda>f. endsWith f ''.yaml'' \<or> endsWith f ''.yml'') listed = []"
    | (c) "\<not> existsSync files (samplesDir cfg)"
    by blast
  then show "\<exists>e. run host cfg files w =
      \<lparr>returned = Inl e, reported = None, world = snd (now host w)\<rparr>"
  proof cases
    case a
    then have "loadPrompts cfg files =
        Inl (ErrorObject (''Prompts directory not found: '' @ promptDir cfg))"
      by (simp add: loadPrompts_def)
    then show ?thesis by (intro exI) (rule run_loadPrompts_fails)
  next
    case b
    then have "loadPrompts cfg files =
        Inl (ErrorObject (''No YAML files found in: '' @ promptDir cfg))"
      by (simp add: loadPrompts_def)
    then show ?thesis by (intro exI) (rule run_loadPrompts_fails)
  next
    case c
    then show ?thesis by (rule run_samples_missing)
  qed
next
  assume h: "existsSync files (promptDir cfg)
        \<and> readdirSync files (promptDir cfg) = Inr entries
        \<and> filter (\<lambda>f. endsWith f ''.yaml'' \<or> endsWith f ''.yml'') entries \<noteq> []
        \<and> list_all (\<lambda>f. case loadYaml files (promptDir cfg) f of
                            Inl e \<Rightarrow> True
                          | Inr prompt \<Rightarrow> PromptConfig.name prompt = [] \<or> template prompt = [])
             (filter (\<lambda>f. endsWith f ''.yaml'' \<or> endsWith f ''.yml'') entries)
        \<and> existsSync files (samplesDir cfg)
        \<and> readdirSync files (samplesDir cfg) = Inr sampleEntries"
  then have p: "loadPrompts cfg files = Inr []"
    by (intro loadPrompts_none [of files cfg entries]) simp_all
  from h obtain samples where "loadSamples cfg files = Inr samples"
    by (simp add: loadSamples_def)
  then show "run host cfg files w =
      \<lparr>returned = Inr [], reported = None, world = snd (now host w)\<rparr>"
    by (rule run_no_prompts [OF p])
qed

theorem missing_sources_abort_the_run_witness:
  "(\<exists>e. run scriptedHost plainConfig noPromptDir 0 =
        \<lparr>returned = Inl e, reported = None, world = 1\<rparr>)
   \<and> run scriptedHost plainConfig unusablePrompts 0 =
        \<lparr>returned = Inr [], reported = None, world = 1\<rparr>"
proof -
  have n: "snd (now scriptedHost 0) = 1"
    by code_simp
  have a: "\<not> existsSync noPromptDir (promptDir plainConfig)"
    by code_simp
  have b: "existsSync unusablePrompts (promptDir plainConfig)"
    "existsSync unusablePrompts (samplesDir plainConfig)"
    by code_simp+
  have c: "readdirSync unusablePrompts (promptDir plainConfig) =
      Inr [''bad.yaml'', ''draft.yml'', ''notes.txt'']"
    "readdirSync unusablePrompts (samplesDir plainConfig) = Inr [''draft.json'']"
    by (simp_all add: unusablePrompts_def plainConfig_def)
  have d: "filter (\<lambda>f. endsWith f ''.yaml'' \<or> endsWith f ''.yml'')
      [''bad.yaml'', ''draft.yml'', ''notes.txt''] = [''bad.yaml'', ''draft.yml'']"
    by code_simp
  have e: "list_all (\<lambda>f. case loadYaml unusablePrompts (promptDir plainConfig) f of
                            Inl e \<Rightarrow> True
                          | Inr prompt \<Rightarrow> PromptConfig.name prompt = [] \<or> template prompt = [])
      [''bad.yaml'', ''draft.yml'']"
    by code_simp
  have first: "\<exists>e. run scriptedHost plainConfig noPromptDir 0 =
      \<lparr>returned = Inl e, reported = None, world = snd (now scriptedHost 0)\<rparr>"
    using missing_sources_abort_the_run [of noPromptDir plainConfig scriptedHost 0] a
    by blast
  have second: "run scriptedHost plainConfig unusablePrompts 0 =
      \<lparr>returned = Inr [], reported = None, world = snd (now scriptedHost 0)\<rparr>"
    using missing_sources_abort_the_run [of unusablePrompts plainConfig _ _
        "[''bad.yaml'', ''draft.yml'', ''notes.txt'']" "[''draft.json'']", THEN conjunct2]
      b c e
    unfolding d by simp
  show ?thesis
    using first second unfolding n by simp
qed

section \<open>Properties of the template processor\<close>

lemma quantifier_None: "quantifierPrefix s = None \<Longrightarrow> quantifier s = None"
  by (simp add: quantifier_def)

lemma quantifier_Nil: "quantifier [] = None"
  by (simp add: quantifier_def quantifierPrefix_def)

lemma quantifierPrefix_plain_head:
  "c \<notin> set syntaxCharacters \<Longrightarrow> quantifierPrefix (c # s) = None"
  by (auto simp: quantifierPrefix_def bracedQuantifier_def syntaxCharacters_def)

lemma quantifierPrefix_closing: "quantifierPrefix (CHR ''}'' # s) = None"
  by (simp add: quantifierPrefix_def bracedQuantifier_def)

lemma quantifierPrefix_two_braces: "quantifierPrefix (CHR ''{'' # CHR ''{'' # s) = None"
  by (simp add: quantifierPrefix_def bracedQuantifier_def isDigit_def)

lemma parsePattern_plain_tail:
  "list_all (\<lambda>c. c \<notin> set syntaxCharacters) k \<Longrightarrow>
     parsePattern (k @ ''}}'') = Some (map literalPiece (k @ ''}}''))"
proof (induction k)
  case Nil
  show ?case
    by (simp add: quantifierPrefix_closing quantifier_None quantifier_Nil literalPiece_def)
next
  case (Cons c k)
  then have c: "c \<notin> set syntaxCharacters" and k: "list_all (\<lambda>c. c \<notin> set syntaxCharacters) k"
    by simp_all
  have q: "quantifier (k @ ''}}'') = None"
  proof (cases k)
    case Nil
    then show ?thesis by (simp add: quantifierPrefix_closing quantifier_None)
  next
    case (Cons d k')
    with k have "d \<notin> set syntaxCharacters" by simp
    then show ?thesis
      using Cons by (simp add: quantifierPrefix_plain_head quantifier_None)
  qed
  have n: "c \<notin> {CHR ''^'', CHR ''$'', CHR 0x5C, CHR ''('', CHR '')'', CHR ''['', CHR ''|''}"
    "c \<noteq> CHR ''.''"
    using c by (auto simp: syntaxCharacters_def)
  show ?case
    using Cons.IH [OF k] n q quantifierPrefix_plain_head [OF c, of "k @ ''}}''"]
    by (simp add: literalPiece_def)
qed

lemma parsePattern_plain_key:
  assumes "plainKey k"
  shows "parsePattern (''{{'' @ k @ ''}}'') = Some (map literalPiece (''{{'' @ k @ ''}}''))"
proof -
  from assms have k: "list_all (\<lambda>c. c \<notin> set syntaxCharacters) k"
    and q: "quantifierPrefix (CHR ''{'' # k @ ''}}'') = None"
    by (simp_all add: plainKey_def)
  have q2: "quantifier (k @ ''}}'') = None"
  proof (cases k)
    case Nil
    then show ?thesis by (simp add: quantifierPrefix_closing quantifier_None)
  next
    case (Cons d k')
    with k have "d \<notin> set syntaxCharacters" by simp
    then show ?thesis
      using Cons by (simp add: quantifierPrefix_plain_head quantifier_None)
  qed
  have inner: "parsePattern (CHR ''{'' # k @ ''}}'') =
      Some (map literalPiece (CHR ''{'' # k @ ''}}''))"
    using parsePattern_plain_tail [OF k] q q2 by (simp add: literalPiece_def)
  show ?thesis
    using inner quantifier_None [OF q] quantifierPrefix_two_braces [of "k @ ''}}''"]
    by (simp add: literalPiece_def)
qed

lemma matchPieces_literal:
  "matchPieces (map literalPiece t) s = (if prefix t s then Some (length t) else None)"
proof (induction t arbitrary: s)
  case Nil
  show ?case by simp
next
  case (Cons c t)
  show ?case
  proof (cases s)
    case Nil
    then show ?thesis by (simp add: attempts_def literalPiece_def)
  next
    case (Cons d s')
    show ?thesis
    proof (cases "c = d")
      case True
      have "min (Suc 0) (Suc (length (takeWhile ((=) d) s'))) = Suc 0"
        by simp
      then show ?thesis
        using True Cons Cons.IH [of s'] by (simp add: attempts_def literalPiece_def)
    next
      case False
      then show ?thesis
        using Cons by (simp add: attempts_def literalPiece_def)
    qed
  qed
qed

lemma getSubstitution_no_dollar:
  "CHR ''$'' \<notin> set r \<Longrightarrow> getSubstitution matched pre post r = r"
  by (induction matched pre post r rule: getSubstitution.induct) auto

lemma replaceFrom_literal:
  "t \<noteq> [] \<Longrightarrow> CHR ''$'' \<notin> set r \<Longrightarrow>
     replaceFrom (map literalPiece t) r pre s = replaceLiteral t r s"
proof (induction t r s arbitrary: pre rule: replaceLiteral.induct)
  case (1 tok v)
  then show ?case
    by (simp add: matchPieces_literal)
next
  case (2 tok v c cs)
  show ?case
  proof (cases "prefix tok (c # cs)")
    case True
    obtain n where n: "length tok = Suc n"
      using "2.prems"(1) by (cases tok) auto
    have m: "matchPieces (map literalPiece tok) (c # cs) = Some (Suc n)"
      using True n by (simp add: matchPieces_literal)
    have "replaceFrom (map literalPiece tok) v (pre @ c # take n cs) (drop n cs) =
        replaceLiteral tok v (drop n cs)"
      using "2.IH"(1) [of "pre @ c # take n cs"] True "2.prems" n by simp
    then show ?thesis
      using True "2.prems" n
      by (simp add: m getSubstitution_no_dollar del: replaceFrom.simps(2))
        (simp add: m getSubstitution_no_dollar)
  next
    case False
    have m: "matchPieces (map literalPiece tok) (c # cs) = None"
      using False by (simp add: matchPieces_literal)
    have "replaceFrom (map literalPiece tok) v (pre @ [c]) cs = replaceLiteral tok v cs"
      using "2.IH"(2) [of "pre @ [c]"] False "2.prems" by simp
    then show ?thesis
      using False by (simp add: m)
  qed
qed

lemma replaceGlobal_literal:
  "parsePattern p = Some (map literalPiece p) \<Longrightarrow> p \<noteq> [] \<Longrightarrow> CHR ''$'' \<notin> set r \<Longrightarrow>
     replaceGlobal host p s r = Inr (replaceLiteral p r s)"
  by (simp add: replaceGlobal_def replaceFrom_literal)

lemma replaceGlobal_plain:
  assumes "plainKey k" and "CHR ''$'' \<notin> set r"
  shows "replaceGlobal host (''{{'' @ k @ ''}}'') s r =
     Inr (replaceLiteral (''{{'' @ k @ ''}}'') r s)"
  by (rule replaceGlobal_literal [OF parsePattern_plain_key [OF assms(1)] _ assms(2)]) simp

lemma substituteEntries_literal:
  "list_all (\<lambda>(k, v). plainKey k \<and> CHR ''$'' \<notin> set (stringOf v)) V \<Longrightarrow>
     substituteEntries host t V = Inr (renderLiteral t V)"
proof (induction V arbitrary: t)
  case Nil
  show ?case by simp
next
  case (Cons e V)
  obtain k v where e: "e = (k, v)" by (cases e)
  from Cons.prems e have k: "plainKey k" and v: "CHR ''$'' \<notin> set (stringOf v)"
    and rest: "list_all (\<lambda>(k, v). plainKey k \<and> CHR ''$'' \<notin> set (stringOf v)) V"
    by simp_all
  show ?case
    using replaceGlobal_plain [OF k v, of host t] Cons.IH [OF rest]
    by (simp add: e del: append.simps)
qed

subsection \<open>Placeholders\<close>

lemma startsWith_append: "startsWith s t = (\<exists>r. s = t @ r)"
  by (auto simp: startsWith_prefix prefix_def)

lemma matchPlaceholder_Some:
  "matchPlaceholder s = Some n \<longleftrightarrow>
     (\<exists>k b. s = ''{{'' @ k @ ''}}'' @ b \<and> k \<noteq> [] \<and> CHR ''}'' \<notin> set k \<and> n = length k + 4)"
proof
  assume m: "matchPlaceholder s = Some n"
  then obtain r where s: "s = ''{{'' @ r"
    by (auto simp: matchPlaceholder_def startsWith_append split: if_splits)
  define k where "k = takeWhile (\<lambda>c. c \<noteq> CHR ''}'') r"
  from m s have k: "k \<noteq> []" and e: "startsWith (drop (length k) r) ''}}''" and n: "n = length k + 4"
    by (auto simp: matchPlaceholder_def k_def Let_def split: if_splits)
  have "r = k @ dropWhile (\<lambda>c. c \<noteq> CHR ''}'') r"
    by (simp add: k_def)
  moreover have "drop (length k) r = dropWhile (\<lambda>c. c \<noteq> CHR ''}'') r"
    by (simp add: k_def dropWhile_eq_drop)
  ultimately obtain b where "r = k @ ''}}'' @ b"
    using e by (auto simp: startsWith_append)
  moreover have "CHR ''}'' \<notin> set k"
    using set_takeWhileD [of "CHR ''}''" "\<lambda>c. c \<noteq> CHR ''}''" r] by (auto simp: k_def)
  ultimately show "\<exists>k b. s = ''{{'' @ k @ ''}}'' @ b \<and> k \<noteq> [] \<and> CHR ''}'' \<notin> set k \<and> n = length k + 4"
    using s k n by blast
next
  assume "\<exists>k b. s = ''{{'' @ k @ ''}}'' @ b \<and> k \<noteq> [] \<and> CHR ''}'' \<notin> set k \<and> n = length k + 4"
  then obtain k b where s: "s = ''{{'' @ k @ ''}}'' @ b" and k: "k \<noteq> []" "CHR ''}'' \<notin> set k"
    and n: "n = length k + 4"
    by blast
  have t: "takeWhile (\<lambda>c. c \<noteq> CHR ''}'') (k @ ''}}'' @ b) = k"
    using k(2) by (simp add: takeWhile_tail takeWhile_eq_all_conv) auto
  show "matchPlaceholder s = Some n"
    using k n t by (simp add: matchPlaceholder_def s Let_def)
qed

lemma keysIn_Nil: "keysIn [] = {}"
  by (auto simp: keysIn_def)

lemma keysInI:
  "k \<noteq> [] \<Longrightarrow> CHR ''}'' \<notin> set k \<Longrightarrow> s = a @ ''{{'' @ k @ ''}}'' @ b \<Longrightarrow> k \<in> keysIn s"
  unfolding keysIn_def by (intro CollectI conjI exI)

lemma keysInE:
  assumes "k \<in> keysIn s"
  obtains a b where "k \<noteq> []" and "CHR ''}'' \<notin> set k" and "s = a @ ''{{'' @ k @ ''}}'' @ b"
  using assms unfolding keysIn_def by (elim CollectE conjE exE)

lemma keysIn_tail: "k \<in> keysIn cs \<Longrightarrow> k \<in> keysIn (c # cs)"
proof -
  assume "k \<in> keysIn cs"
  then obtain a b where k: "k \<noteq> []" "CHR ''}'' \<notin> set k" and e: "cs = a @ ''{{'' @ k @ ''}}'' @ b"
    by (rule keysInE)
  from e have "c # cs = (c # a) @ ''{{'' @ k @ ''}}'' @ b"
    by simp
  with k show ?thesis by (rule keysInI)
qed

lemma keysIn_head:
  assumes "matchPlaceholder (c # cs) = Some n"
  shows "take (n - 4) (drop 1 cs) \<in> keysIn (c # cs)"
proof -
  from assms obtain k b where s: "c # cs = ''{{'' @ k @ ''}}'' @ b"
    and k: "k \<noteq> []" "CHR ''}'' \<notin> set k" and n: "n = length k + 4"
    unfolding matchPlaceholder_Some by (elim exE conjE)
  from s have "drop 1 cs = k @ ''}}'' @ b"
    by (cases cs) simp_all
  then have "take (n - 4) (drop 1 cs) = k"
    using n by simp
  moreover from s have "c # cs = [] @ ''{{'' @ k @ ''}}'' @ b"
    by simp
  with k have "k \<in> keysIn (c # cs)" by (rule keysInI)
  ultimately show ?thesis by simp
qed

lemma keysIn_Cons_cases:
  assumes "k \<in> keysIn (c # cs)"
  shows "k \<in> keysIn cs \<or> matchPlaceholder (c # cs) = Some (length k + 4)
    \<and> take (length k) (drop 1 cs) = k"
proof -
  from assms obtain a b where k: "k \<noteq> []" "CHR ''}'' \<notin> set k"
    and e: "c # cs = a @ ''{{'' @ k @ ''}}'' @ b"
    by (rule keysInE)
  show ?thesis
  proof (cases a)
    case Nil
    with e have s: "c # cs = ''{{'' @ k @ ''}}'' @ b" by simp
    have "\<exists>k' b'. c # cs = ''{{'' @ k' @ ''}}'' @ b' \<and> k' \<noteq> [] \<and> CHR ''}'' \<notin> set k'
        \<and> length k + 4 = length k' + 4"
      using s k by (intro exI [of _ k] exI [of _ b]) simp
    then have "matchPlaceholder (c # cs) = Some (length k + 4)"
      unfolding matchPlaceholder_Some .
    moreover from s have "drop 1 cs = k @ ''}}'' @ b"
      by (cases cs) simp_all
    then have "take (length k) (drop 1 cs) = k" by simp
    ultimately show ?thesis by simp
  next
    case (Cons x a')
    then have "cs = a' @ ''{{'' @ k @ ''}}'' @ b" using e by simp
    with k have "k \<in> keysIn cs" by (rule keysInI)
    then show ?thesis by simp
  qed
qed

lemma keysIn_Cons:
  "keysIn (c # cs) =
     (case matchPlaceholder (c # cs) of
        None \<Rightarrow> keysIn cs
      | Some n \<Rightarrow> insert (take (n - 4) (drop 1 cs)) (keysIn cs))"
proof (cases "matchPlaceholder (c # cs)")
  case None
  have "keysIn (c # cs) \<subseteq> keysIn cs"
    using keysIn_Cons_cases [of _ c cs] None by auto
  moreover have "keysIn cs \<subseteq> keysIn (c # cs)"
    using keysIn_tail by auto
  ultimately show ?thesis using None by simp
next
  case (Some n)
  have "keysIn (c # cs) \<subseteq> insert (take (n - 4) (drop 1 cs)) (keysIn cs)"
  proof
    fix k assume "k \<in> keysIn (c # cs)"
    from keysIn_Cons_cases [OF this] Some
    show "k \<in> insert (take (n - 4) (drop 1 cs)) (keysIn cs)"
      by auto
  qed
  moreover have "insert (take (n - 4) (drop 1 cs)) (keysIn cs) \<subseteq> keysIn (c # cs)"
    using keysIn_tail keysIn_head [OF Some] by auto
  ultimately have "keysIn (c # cs) = insert (take (n - 4) (drop 1 cs)) (keysIn cs)"
    by (rule subset_antisym)
  then show ?thesis using Some by simp
qed

lemma set_placeholderKeys: "set (placeholderKeys s) = keysIn s"
  by (induction s) (auto simp: keysIn_Nil keysIn_Cons split: option.splits)

lemma unsubstituted_Nil: "keysIn s = {} \<Longrightarrow> unsubstituted s = []"
  by (induction s) (auto simp: keysIn_Cons split: option.splits)

lemma keysIn_mono_right: "keysIn u \<subseteq> keysIn (u @ y)"
proof
  fix k assume "k \<in> keysIn u"
  then obtain a b where k: "k \<noteq> []" "CHR ''}'' \<notin> set k" and e: "u = a @ ''{{'' @ k @ ''}}'' @ b"
    by (rule keysInE)
  from e have "u @ y = a @ ''{{'' @ k @ ''}}'' @ (b @ y)" by simp
  with k show "k \<in> keysIn (u @ y)" by (rule keysInI)
qed

lemma keysIn_mono_left: "keysIn w \<subseteq> keysIn (x @ w)"
proof
  fix k assume "k \<in> keysIn w"
  then obtain a b where k: "k \<noteq> []" "CHR ''}'' \<notin> set k" and e: "w = a @ ''{{'' @ k @ ''}}'' @ b"
    by (rule keysInE)
  from e have "x @ w = (x @ a) @ ''{{'' @ k @ ''}}'' @ b" by simp
  with k show "k \<in> keysIn (x @ w)" by (rule keysInI)
qed

lemma replaceLiteral_first:
  assumes "tok \<noteq> []"
  shows "(\<not> sublist tok s \<and> replaceLiteral tok v s = s)
    \<or> (\<exists>u w. s = u @ tok @ w \<and> \<not> sublist tok u
          \<and> replaceLiteral tok v s = u @ v @ replaceLiteral tok v w)"
proof (induction s)
  case Nil
  show ?case using assms by simp
next
  case (Cons c cs)
  show ?case
  proof (cases "prefix tok (c # cs)")
    case True
    then obtain w where w: "c # cs = tok @ w"
      by (auto simp: prefix_def)
    obtain n where n: "length tok = Suc n"
      using assms by (cases tok) auto
    have "drop (Suc n) (c # cs) = w"
      using w n by (metis append_eq_conv_conj)
    then have d: "drop (length tok - 1) cs = w"
      using n by simp
    have "replaceLiteral tok v (c # cs) = v @ replaceLiteral tok v (drop (length tok - 1) cs)"
      using True assms by simp
    then have r: "replaceLiteral tok v (c # cs) = [] @ v @ replaceLiteral tok v w"
      unfolding d by simp
    have "c # cs = [] @ tok @ w" using w by simp
    moreover have "\<not> sublist tok []" using assms by simp
    ultimately show ?thesis using r by blast
  next
    case False
    from Cons.IH show ?thesis
    proof
      assume a: "\<not> sublist tok cs \<and> replaceLiteral tok v cs = cs"
      then have "\<not> sublist tok (c # cs)"
        using False by (simp add: sublist_Cons_right)
      then show ?thesis using a False by simp
    next
      assume "\<exists>u w. cs = u @ tok @ w \<and> \<not> sublist tok u
          \<and> replaceLiteral tok v cs = u @ v @ replaceLiteral tok v w"
      then obtain u w where u: "cs = u @ tok @ w" "\<not> sublist tok u"
        "replaceLiteral tok v cs = u @ v @ replaceLiteral tok v w"
        by blast
      have "\<not> prefix tok (c # u)"
        using False u(1) by (metis append_Cons prefix_prefix)
      then have "\<not> sublist tok (c # u)"
        using u(2) by (simp add: sublist_Cons_right)
      moreover have "c # cs = (c # u) @ tok @ w"
        using u(1) by simp
      moreover have "replaceLiteral tok v (c # cs) = (c # u) @ v @ replaceLiteral tok v w"
        using False u(3) by simp
      ultimately show ?thesis by blast
    qed
  qed
qed

lemma placeholder_split:
  assumes "t @ t2 = ''{{'' @ k' @ ''}}''" and "t2 \<noteq> []"
    and "hd t2 \<noteq> CHR ''{''" and "hd t2 \<noteq> CHR ''}''"
  shows "\<exists>k1 k2. t = ''{{'' @ k1 \<and> k' = k1 @ k2 \<and> k2 \<noteq> [] \<and> t2 = k2 @ ''}}''"
proof -
  obtain t' where t: "t = CHR ''{'' # CHR ''{'' # t'" and r: "t' @ t2 = k' @ ''}}''"
  proof (cases t)
    case Nil
    with assms show ?thesis by auto
  next
    case (Cons x y)
    show ?thesis
    proof (cases y)
      case Nil
      with Cons assms show ?thesis by auto
    next
      case (Cons z t')
      with \<open>t = x # y\<close> assms(1) that show ?thesis by auto
    qed
  qed
  from r obtain z where "t' = k' @ z \<and> z @ t2 = ''}}'' \<or> t' @ z = k' \<and> t2 = z @ ''}}''"
    unfolding append_eq_append_conv2 by blast
  then show ?thesis
  proof
    assume a: "t' = k' @ z \<and> z @ t2 = ''}}''"
    then have e: "z @ t2 = ''}}''" by simp
    have "hd t2 \<in> set (z @ t2)" using assms(2) by simp
    then have "hd t2 \<in> set ''}}''" unfolding e .
    then have "hd t2 = CHR ''}''" by simp
    with assms(4) show ?thesis by simp
  next
    assume a: "t' @ z = k' \<and> t2 = z @ ''}}''"
    then have "z \<noteq> []"
      using assms(4) by auto
    then show ?thesis
      using a t by auto
  qed
qed

lemma hd_append_eq:
  assumes "v @ w = y @ b" and "v \<noteq> []" and "y \<noteq> []"
  shows "hd y = hd v"
  using assms by (cases v; cases y) auto

lemma keysIn_replaceLiteral:
  assumes k: "CHR ''{'' \<notin> set k" "CHR ''}'' \<notin> set k"
    and v: "v \<noteq> []" "CHR ''{'' \<notin> set v" "CHR ''}'' \<notin> set v"
  shows "(\<forall>k' \<in> keysIn s. CHR ''{'' \<notin> set k') \<Longrightarrow>
    keysIn (replaceLiteral (''{{'' @ k @ ''}}'') v s) \<subseteq> keysIn s - {k}"
proof (induction "length s" arbitrary: s rule: less_induct)
  case less
  define tok where "tok = ''{{'' @ k @ ''}}''"
  have tok: "tok \<noteq> []" by (simp add: tok_def)
  note H = less.prems
  from replaceLiteral_first [OF tok, of s v]
  show ?case
  proof
    assume a: "\<not> sublist tok s \<and> replaceLiteral tok v s = s"
    have "k \<notin> keysIn s"
    proof
      assume "k \<in> keysIn s"
      then obtain a b where "s = a @ ''{{'' @ k @ ''}}'' @ b"
        by (rule keysInE)
      then have "s = a @ tok @ b" by (simp add: tok_def)
      then have "sublist tok s" unfolding sublist_def by blast
      with a show False by simp
    qed
    with a show ?thesis unfolding tok_def by auto
  next
    assume "\<exists>u w. s = u @ tok @ w \<and> \<not> sublist tok u
          \<and> replaceLiteral tok v s = u @ v @ replaceLiteral tok v w"
    then obtain u w where s: "s = u @ tok @ w" and u: "\<not> sublist tok u"
      and r: "replaceLiteral tok v s = u @ v @ replaceLiteral tok v w"
      by blast
    define w' where "w' = replaceLiteral tok v w"
    have lw: "length w < length s" using s tok by simp
    have ws: "keysIn w \<subseteq> keysIn s"
      using keysIn_mono_left [of w "u @ tok"] s by simp
    have us: "keysIn u \<subseteq> keysIn s"
      using keysIn_mono_right [of u "tok @ w"] s by simp
    have IH: "keysIn w' \<subseteq> keysIn w - {k}"
      unfolding w'_def tok_def using less.hyps [OF lw] H ws by blast
    have "k' \<in> keysIn s - {k}" if k': "k' \<in> keysIn (u @ v @ w')" for k'
    proof -
      from k' obtain a' b' where k'1: "k' \<noteq> []" and k'2: "CHR ''}'' \<notin> set k'"
        and e: "u @ v @ w' = a' @ ''{{'' @ k' @ ''}}'' @ b'"
        by (rule keysInE)
      define P where "P = ''{{'' @ k' @ ''}}''"
      have P: "P \<noteq> []" "hd P = CHR ''{''" by (simp_all add: P_def)
      from e have e': "u @ (v @ w') = a' @ (P @ b')" by (simp add: P_def)
      have inw: "k' \<in> keysIn s - {k}" if "w' = y @ P @ b'" for y
      proof -
        from that have "w' = y @ ''{{'' @ k' @ ''}}'' @ b'" by (simp add: P_def)
        with k'1 k'2 have "k' \<in> keysIn w'" by (rule keysInI)
        with IH ws show ?thesis by blast
      qed
      have inu: "k' \<in> keysIn s - {k}" if "u = a' @ P @ y" for y
      proof -
        from that have uu: "u = a' @ ''{{'' @ k' @ ''}}'' @ y" by (simp add: P_def)
        with k'1 k'2 have "k' \<in> keysIn u" by (rule keysInI)
        moreover have "k' \<noteq> k"
        proof
          assume "k' = k"
          with uu have "u = a' @ tok @ y" by (simp add: tok_def)
          then have "sublist tok u" unfolding sublist_def by blast
          with u show False by simp
        qed
        ultimately show ?thesis using us by blast
      qed
      from e' obtain x where "u = a' @ x \<and> x @ (v @ w') = P @ b' \<or> u @ x = a' \<and> v @ w' = x @ (P @ b')"
        unfolding append_eq_append_conv2 by blast
      then show ?thesis
      proof
        assume A: "u = a' @ x \<and> x @ (v @ w') = P @ b'"
        then obtain y where "x = P @ y \<and> y @ (v @ w') = b' \<or> x @ y = P \<and> v @ w' = y @ b'"
          unfolding append_eq_append_conv2 by blast
        then show ?thesis
        proof
          assume "x = P @ y \<and> y @ (v @ w') = b'"
          with A have "u = a' @ P @ y" by simp
          then show ?thesis by (rule inu)
        next
          assume A2: "x @ y = P \<and> v @ w' = y @ b'"
          show ?thesis
          proof (cases "y = []")
            case True
            with A A2 have "u = a' @ P @ []" by simp
            then show ?thesis by (rule inu)
          next
            case False
            have "hd y = hd v"
              using A2 v(1) False hd_append_eq by blast
            moreover have "hd v \<in> set v" using v(1) by simp
            ultimately have hy: "hd y \<noteq> CHR ''{''" "hd y \<noteq> CHR ''}''"
              using v(2,3) by auto
            from A2 have "x @ y = ''{{'' @ k' @ ''}}''" by (simp add: P_def)
            from placeholder_split [OF this False hy]
            obtain k1 k2 where x: "x = ''{{'' @ k1" and kk: "k' = k1 @ k2"
              by blast
            have "s = a' @ ''{{'' @ (k1 @ ''{{'' @ k) @ ''}}'' @ w"
              using s A x by (simp add: tok_def)
            moreover have "k1 @ ''{{'' @ k \<noteq> []" by simp
            moreover have "CHR ''}'' \<notin> set (k1 @ ''{{'' @ k)"
              using k'2 kk k(2) by simp
            ultimately have "k1 @ ''{{'' @ k \<in> keysIn s"
              using keysInI by blast
            with H have "CHR ''{'' \<notin> set (k1 @ ''{{'' @ k)" by blast
            then show ?thesis by simp
          qed
        qed
      next
        assume B: "u @ x = a' \<and> v @ w' = x @ (P @ b')"
        then obtain y where "v = x @ y \<and> y @ w' = P @ b' \<or> v @ y = x \<and> w' = y @ (P @ b')"
          unfolding append_eq_append_conv2 by blast
        then show ?thesis
        proof
          assume B1: "v = x @ y \<and> y @ w' = P @ b'"
          show ?thesis
          proof (cases "y = []")
            case True
            with B1 have "w' = [] @ P @ b'" by simp
            then show ?thesis by (rule inw)
          next
            case False
            have "hd P = hd y"
              using B1 P(1) False hd_append_eq [of y w' P b'] by simp
            moreover have "hd y \<in> set v" using B1 False by auto
            ultimately show ?thesis using v(2) P(2) by simp
          qed
        next
          assume "v @ y = x \<and> w' = y @ (P @ b')"
          then have "w' = y @ P @ b'" by simp
          then show ?thesis by (rule inw)
        qed
      qed
    qed
    then show ?thesis
      unfolding tok_def [symmetric] r w'_def [symmetric] by blast
  qed
qed

lemma plainKey_no_brace:
  "plainKey k \<Longrightarrow> CHR ''{'' \<notin> set k \<and> CHR ''}'' \<notin> set k"
  by (auto simp: plainKey_def list_all_iff syntaxCharacters_def)

lemma plainValue_facts:
  "plainValue s \<Longrightarrow>
     s \<noteq> [] \<and> CHR ''{'' \<notin> set s \<and> CHR ''}'' \<notin> set s \<and> CHR ''$'' \<notin> set s"
  by (auto simp: plainValue_def list_all_iff)

lemma keysIn_renderLiteral:
  "list_all (\<lambda>(k, v). plainKey k \<and> plainValue (stringOf v)) V \<Longrightarrow>
     keysIn t \<subseteq> fst ` set V \<Longrightarrow> keysIn (renderLiteral t V) = {}"
proof (induction V arbitrary: t)
  case Nil
  then show ?case by simp
next
  case (Cons e V)
  obtain k v where e: "e = (k, v)" by (cases e)
  from Cons.prems(1) e have k: "plainKey k" and v: "plainValue (stringOf v)"
    and rest: "list_all (\<lambda>(k, v). plainKey k \<and> plainValue (stringOf v)) V"
    by simp_all
  have "CHR ''{'' \<notin> set k'" if "k' \<in> keysIn t" for k'
  proof -
    from that Cons.prems(2) have "k' \<in> fst ` set (e # V)"
      by blast
    then obtain v' where "(k', v') \<in> set (e # V)"
      by force
    with Cons.prems(1) have "plainKey k'"
      unfolding list_all_iff by blast
    then show ?thesis by (simp add: plainKey_no_brace)
  qed
  then have "keysIn (replaceLiteral (''{{'' @ k @ ''}}'') (stringOf v) t) \<subseteq> keysIn t - {k}"
    using keysIn_replaceLiteral [of k "stringOf v" t] plainKey_no_brace [OF k]
      plainValue_facts [OF v] by blast
  also have "\<dots> \<subseteq> fst ` set V"
    using Cons.prems(2) e by auto
  finally show ?case
    using Cons.IH [OF rest] by (simp add: e del: append.simps)
qed

text \<open>
  Claim C4, amended. If every placeholder that occurs in the template has a matching key,
  every key is plain (no syntax character of regular expressions, not the bounds of a
  braced quantifier) and the string form of every value is not empty and has no brace and
  no dollar sign, then rendering succeeds, its result is the literal substitution of all
  keys in turn, and no placeholder is left in it.
\<close>

theorem plain_input_leaves_no_placeholder:
  assumes "list_all (\<lambda>(k, v). plainKey k \<and> plainValue (stringOf v)) V"
    and "set (placeholderKeys T) \<subseteq> fst ` set V"
  shows "processTemplate host T V = Inr (renderLiteral T V)
    \<and> unsubstituted (renderLiteral T V) = []"
proof -
  have "list_all (\<lambda>(k, v). plainKey k \<and> CHR ''$'' \<notin> set (stringOf v)) V"
    using assms(1) plainValue_facts by (auto simp: list_all_iff)
  then have "processTemplate host T V = Inr (renderLiteral T V)"
    by (simp add: processTemplate_def substituteEntries_literal)
  moreover have "keysIn (renderLiteral T V) = {}"
    using keysIn_renderLiteral [OF assms(1)] assms(2) by (simp add: set_placeholderKeys)
  ultimately show ?thesis
    by (simp add: unsubstituted_Nil)
qed

theorem plain_input_leaves_no_placeholder_witness:
  "processTemplate scriptedHost ''Translate {{text}} to {{lang}}''
     [(''text'', JString ''hi''), (''lang'', JString ''fr'')] = Inr ''Translate hi to fr''
   \<and> unsubstituted ''Translate hi to fr'' = []"
proof -
  have a: "list_all (\<lambda>(k, v). plainKey k \<and> plainValue (stringOf v))
      [(''text'', JString ''hi''), (''lang'', JString ''fr'')]"
    by code_simp
  have b: "placeholderKeys ''Translate {{text}} to {{lang}}'' = [''text'', ''lang'']"
    by code_simp
  have c: "set (placeholderKeys ''Translate {{text}} to {{lang}}'')
      \<subseteq> fst ` set [(''text'', JString ''hi''), (''lang'', JString ''fr'')]"
    unfolding b by simp
  have d: "renderLiteral ''Translate {{text}} to {{lang}}''
      [(''text'', JString ''hi''), (''lang'', JString ''fr'')] = ''Translate hi to fr''"
    by code_simp
  show ?thesis
    using plain_input_leaves_no_placeholder [OF a c, of scriptedHost]
    unfolding d .
qed

text \<open>
  Claim C4, as stated, fails: the only placeholder of the template has a matching key,
  and the value of that key brings a placeholder of its own into the result.
\<close>

theorem value_with_placeholder_stays_unresolved:
  "placeholderKeys ''Hello {{a}}'' = [''a'']
   \<and> processTemplate scriptedHost ''Hello {{a}}'' [(''a'', JString ''{{b}}'')] = Inr ''Hello {{b}}''
   \<and> unsubstituted ''Hello {{b}}'' = [''{{b}}'']"
  by code_simp

text \<open>Each condition of the amended claim excludes inputs that leave a placeholder behind:
  an empty value, a value with a single brace, a value with a dollar pattern, a key that
  reads as a quantifier.\<close>

lemma each_condition_matters:
  "placeholderKeys ''{{x}{{k}}}'' = [''k'']
   \<and> processTemplate scriptedHost ''{{x}{{k}}}'' [(''k'', JString '''')] = Inr ''{{x}}''
   \<and> placeholderKeys ''{{a}}{b}}'' = [''a'']
   \<and> processTemplate scriptedHost ''{{a}}{b}}'' [(''a'', JString ''{'')] = Inr ''{{b}}''
   \<and> placeholderKeys ''{{b}{{a}}'' = [''a'']
   \<and> processTemplate scriptedHost ''{{b}{{a}}'' [(''a'', JString ''}'')] = Inr ''{{b}}''
   \<and> processTemplate scriptedHost ''{{a}}'' [(''a'', JString ''$&'')] = Inr ''{{a}}''
   \<and> processTemplate scriptedHost ''{{1}}'' [(''1'', JString ''x'')] = Inr ''{{1}}''"
  by code_simp

text \<open>
  Claim C3. A value \<open>$&\<close> is not inserted as it stands: \<open>replace\<close> expands it to the
  matched placeholder, so the template comes back unchanged. A key \<open>1\<close> is not matched
  as it stands: \<open>{{1}}\<close> is the pattern of one open brace followed by a closing brace,
  which leaves the placeholder \<open>{{1}}\<close> alone and replaces the text \<open>{}\<close>.
\<close>

theorem special_characters_are_interpreted:
  "processTemplate scriptedHost ''Price: {{price}}'' [(''price'', JString ''$&'')] =
     Inr ''Price: {{price}}''
   \<and> processTemplate scriptedHost ''{{1}} and {{2}}, or {}''
       [(''1'', JString ''x''), (''2'', JString ''y'')] = Inr ''{{1}} and {{2}}, or x''"
  by code_simp

text \<open>
  For plain keys and values without a dollar sign, rendering is the literal substitution
  that the specification describes: every occurrence of every token, key after key.
\<close>

theorem plain_input_is_substituted_literally:
  assumes "list_all (\<lambda>(k, v). plainKey k \<and> CHR ''$'' \<notin> set (stringOf v)) V"
  shows "processTemplate host T V = Inr (renderLiteral T V)"
  using assms by (simp add: processTemplate_def substituteEntries_literal)

theorem plain_input_is_substituted_literally_witness:
  "processTemplate scriptedHost ''{{who}} owes {{who}} {{n}}''
     [(''who'', JString ''Ann {x}''), (''n'', JNumber (-12))] = Inr ''Ann {x} owes Ann {x} -12''"
proof -
  have a: "list_all (\<lambda>(k, v). plainKey k \<and> CHR ''$'' \<notin> set (stringOf v))
      [(''who'', JString ''Ann {x}''), (''n'', JNumber (-12))]"
    by code_simp
  have d: "renderLiteral ''{{who}} owes {{who}} {{n}}''
      [(''who'', JString ''Ann {x}''), (''n'', JNumber (-12))] = ''Ann {x} owes Ann {x} -12''"
    by code_simp
  show ?thesis
    using plain_input_is_substituted_literally
      [OF a, of scriptedHost "''{{who}} owes {{who}} {{n}}''"]
    unfolding d .
qed

end
